theory Spec2Isabelle
  imports Main
begin

section \<open>Values of the program\<close>

text \<open>
  A JavaScript object is a property bag. Its own properties are modelled as an
  association list in insertion order with one entry per key: \<open>obj_get\<close> reads an own
  property (\<open>None\<close> when there is none), \<open>obj_set\<close> writes one (an existing key keeps
  its place, a new key is appended) and \<open>obj_delete\<close> is \<open>delete o[k]\<close>. Property values
  of requests and job records are strings, the type the interface documents; a property
  whose value is \<open>undefined\<close> is the same as a missing one (\<open>JSON.stringify\<close> drops it).
  Strings are modelled by their UTF-8 bytes. The numeric ordering of integer-like keys is
  outside the model.
\<close>

type_synonym 'v obj = "(string \<times> 'v) list"

primrec obj_get :: "'v obj \<Rightarrow> string \<Rightarrow> 'v option" where
  "obj_get [] k = None"
| "obj_get (p # ps) k = (if fst p = k then Some (snd p) else obj_get ps k)"

primrec obj_set :: "'v obj \<Rightarrow> string \<Rightarrow> 'v \<Rightarrow> 'v obj" where
  "obj_set [] k v = [(k, v)]"
| "obj_set (p # ps) k v = (if fst p = k then (k, v) # ps else p # obj_set ps k v)"

primrec obj_delete :: "'v obj \<Rightarrow> string \<Rightarrow> 'v obj" where
  "obj_delete [] k = []"
| "obj_delete (p # ps) k = (if fst p = k then obj_delete ps k else p # obj_delete ps k)"

definition obj_keys :: "'v obj \<Rightarrow> string list" where
  "obj_keys ob = map fst ob"

text \<open>
  JavaScript truthiness of a string-or-undefined value: \<open>undefined\<close> and the empty
  string are falsy, every other string is truthy.
\<close>

fun truthy :: "string option \<Rightarrow> bool" where
  "truthy None = False"
| "truthy (Some s) = (s \<noteq> [])"

type_synonym job = "string obj"
type_synonym jobs = "job obj"

subsection \<open>The job map as a plain object\<close>

text \<open>
  The job map that \<open>loadJobs\<close> returns is a plain object: its prototype is
  \<open>Object.prototype\<close>, so \<open>jobs[id]\<close> also finds the twelve properties every object
  inherits. All of them are truthy (eleven functions, and the accessor \<open>__proto__\<close>,
  which reads as the prototype), and so are the records the map holds: \<open>js_truthy\<close> is
  the truthiness of \<open>jobs[id]\<close>.

  The assignment \<open>jobs[id] = record\<close> writes an own property, with one exception: for
  the key \<open>__proto__\<close>, when the object has no own property of that name, it runs the
  inherited setter, which makes the record the prototype of the map and leaves the own
  properties as they are. \<open>js_assign\<close> gives the own properties after the assignment and
  \<open>js_assigned\<close> what \<open>jobs[id]\<close> reads after it: the own property, or for \<open>__proto__\<close>
  the prototype the setter installed. \<open>JSON.stringify\<close> writes own properties only.
\<close>

definition proto_names :: "string list" where
  "proto_names =
     [''constructor'', ''__defineGetter__'', ''__defineSetter__'', ''hasOwnProperty'',
      ''__lookupGetter__'', ''__lookupSetter__'', ''isPrototypeOf'', ''propertyIsEnumerable'',
      ''toString'', ''valueOf'', ''__proto__'', ''toLocaleString'']"

definition js_truthy :: "'v obj \<Rightarrow> string \<Rightarrow> bool" where
  "js_truthy ob k \<longleftrightarrow> obj_get ob k \<noteq> None \<or> k \<in> set proto_names"

definition js_assign :: "'v obj \<Rightarrow> string \<Rightarrow> 'v \<Rightarrow> 'v obj" where
  "js_assign ob k v = (if k = ''__proto__'' \<and> obj_get ob k = None then ob else obj_set ob k v)"

definition js_assigned :: "'v obj \<Rightarrow> string \<Rightarrow> 'v \<Rightarrow> 'v option" where
  "js_assigned ob k v =
     (case obj_get (js_assign ob k v) k of
        Some x \<Rightarrow> Some x
      | None \<Rightarrow> if k = ''__proto__'' then Some v else None)"

subsection \<open>The text of the jobs file\<close>

text \<open>
  \<open>JSON_stringify\<close> is \<open>JSON.stringify(jobs, null, 2)\<close> on a job map: members one per
  line, indented by two spaces per level, \<open>{}\<close> for an empty object, strings quoted with
  the escapes of the standard (quote, backslash, the five named control characters, and
  \<open>\u00XX\<close> for the other characters below space).
\<close>

definition hex_digit :: "nat \<Rightarrow> char" where
  "hex_digit n = (if n < 10 then char_of (48 + n) else char_of (87 + n))"

definition escape :: "char \<Rightarrow> string" where
  "escape c =
     (if c = CHR 0x22 then [CHR 0x5C, CHR 0x22]
      else if c = CHR 0x5C then [CHR 0x5C, CHR 0x5C]
      else if c = CHR 0x08 then [CHR 0x5C, CHR ''b'']
      else if c = CHR 0x0C then [CHR 0x5C, CHR ''f'']
      else if c = CHR 0x0A then [CHR 0x5C, CHR ''n'']
      else if c = CHR 0x0D then [CHR 0x5C, CHR ''r'']
      else if c = CHR 0x09 then [CHR 0x5C, CHR ''t'']
      else if of_char c < (32::nat)
      then [CHR 0x5C, CHR ''u'', CHR ''0'', CHR ''0'',
            hex_digit (of_char c div 16), hex_digit (of_char c mod 16)]
      else [c])"

definition json_quote :: "string \<Rightarrow> string" where
  "json_quote s = CHR 0x22 # concat (map escape s) @ [CHR 0x22]"

fun members_text :: "string \<Rightarrow> (string \<times> string) list \<Rightarrow> string" where
  "members_text ind [] = []"
| "members_text ind [m] = ind @ json_quote (fst m) @ '': '' @ snd m"
| "members_text ind (m # m' # ms) =
     ind @ json_quote (fst m) @ '': '' @ snd m @ [CHR '','', CHR 0x0A] @ members_text ind (m' # ms)"

definition object_text :: "string \<Rightarrow> (string \<times> string) list \<Rightarrow> string" where
  "object_text ind ms =
     (if ms = [] then ''{}''
      else ''{'' @ [CHR 0x0A] @ members_text (ind @ ''  '') ms @ [CHR 0x0A] @ ind @ ''}'')"

definition JSON_stringify :: "jobs \<Rightarrow> string" where
  "JSON_stringify js =
     object_text []
       (map (\<lambda>e. (fst e, object_text ''  '' (map (\<lambda>p. (fst p, json_quote (snd p))) (snd e)))) js)"

text \<open>
  \<open>JSON_parse\<close> is \<open>JSON.parse\<close> on the texts that are job maps: an object whose
  members are objects whose members are strings, with white space between tokens as the
  grammar allows. A string may hold any escape of the grammar; \<open>\uXXXX\<close> is decoded to
  UTF-8, a surrogate pair to one code point. A later member with the key of an earlier
  one replaces its value and keeps its place. \<open>None\<close> is a text that is not JSON, where
  \<open>JSON.parse\<close> throws. JSON of another shape (an array, a number, a record with a
  member that is not a string) and a surrogate escape on its own are outside the model,
  which has no value for them, and read as \<open>None\<close> too.
\<close>

definition hex_value :: "char \<Rightarrow> nat option" where
  "hex_value c =
     (let n = of_char c :: nat
      in if 48 \<le> n \<and> n \<le> 57 then Some (n - 48)
         else if 97 \<le> n \<and> n \<le> 102 then Some (n - 87)
         else if 65 \<le> n \<and> n \<le> 70 then Some (n - 55)
         else None)"

definition hex4 :: "char \<Rightarrow> char \<Rightarrow> char \<Rightarrow> char \<Rightarrow> nat option" where
  "hex4 a b c d =
     (case (hex_value a, hex_value b, hex_value c, hex_value d) of
        (Some w, Some x, Some y, Some z) \<Rightarrow> Some (((w * 16 + x) * 16 + y) * 16 + z)
      | _ \<Rightarrow> None)"

definition utf8 :: "nat \<Rightarrow> string" where
  "utf8 n =
     (if n < 0x80 then [char_of n]
      else if n < 0x800 then [char_of (0xC0 + n div 64), char_of (0x80 + n mod 64)]
      else if n < 0x10000
      then [char_of (0xE0 + n div 4096), char_of (0x80 + n div 64 mod 64), char_of (0x80 + n mod 64)]
      else [char_of (0xF0 + n div 262144), char_of (0x80 + n div 4096 mod 64),
            char_of (0x80 + n div 64 mod 64), char_of (0x80 + n mod 64)])"

definition simple_escape :: "char \<Rightarrow> char option" where
  "simple_escape e =
     (if e = CHR 0x22 then Some (CHR 0x22)
      else if e = CHR 0x5C then Some (CHR 0x5C)
      else if e = CHR ''/'' then Some (CHR ''/'')
      else if e = CHR ''b'' then Some (CHR 0x08)
      else if e = CHR ''f'' then Some (CHR 0x0C)
      else if e = CHR ''n'' then Some (CHR 0x0A)
      else if e = CHR ''r'' then Some (CHR 0x0D)
      else if e = CHR ''t'' then Some (CHR 0x09)
      else None)"

text \<open>The characters of a string after its opening quote, and what follows the closing one.\<close>

fun string_body :: "string \<Rightarrow> (string \<times> string) option" where
  "string_body [] = None"
| "string_body (c # cs) =
     (if c = CHR 0x22 then Some ([], cs)
      else if c = CHR 0x5C then
        (case cs of
           [] \<Rightarrow> None
         | e # es \<Rightarrow>
             if e = CHR ''u'' then
               (case es of
                  a # b # c' # d # rest \<Rightarrow>
                    (case hex4 a b c' d of
                       None \<Rightarrow> None
                     | Some n \<Rightarrow>
                         if n < 0xD800 \<or> 0xE000 \<le> n
                         then map_option (\<lambda>r. (utf8 n @ fst r, snd r)) (string_body rest)
                         else if n < 0xDC00 then
                           (case rest of
                              b1 # u1 # w # x # y # z # rest' \<Rightarrow>
                                if b1 = CHR 0x5C \<and> u1 = CHR ''u'' then
                                  (case hex4 w x y z of
                                     None \<Rightarrow> None
                                   | Some m \<Rightarrow>
                                       if 0xDC00 \<le> m \<and> m < 0xE000
                                       then map_option
                                              (\<lambda>r. (utf8 (0x10000 + (n - 0xD800) * 0x400 + (m - 0xDC00))
                                                     @ fst r, snd r))
                                              (string_body rest')
                                       else None)
                                else None
                            | _ \<Rightarrow> None)
                         else None)
                | _ \<Rightarrow> None)
             else
               (case simple_escape e of
                  None \<Rightarrow> None
                | Some ch \<Rightarrow> map_option (\<lambda>r. (ch # fst r, snd r)) (string_body es)))
      else if of_char c < (32::nat) then None
      else map_option (\<lambda>r. (c # fst r, snd r)) (string_body cs))"

lemma string_body_shorter: "string_body cs = Some r \<Longrightarrow> length (snd r) < length cs"
  by (induction cs arbitrary: r rule: string_body.induct)
    (fastforce split: if_splits list.splits option.splits)+

datatype token = LBrace | RBrace | Colon | Comma | Str string

definition whitespace :: "char \<Rightarrow> bool" where
  "whitespace c \<longleftrightarrow> c = CHR '' '' \<or> c = CHR 0x09 \<or> c = CHR 0x0A \<or> c = CHR 0x0D"

function tokens :: "string \<Rightarrow> token list option" where
  "tokens [] = Some []"
| "tokens (c # cs) =
     (if whitespace c then tokens cs
      else if c = CHR ''{'' then map_option ((#) LBrace) (tokens cs)
      else if c = CHR ''}'' then map_option ((#) RBrace) (tokens cs)
      else if c = CHR '':'' then map_option ((#) Colon) (tokens cs)
      else if c = CHR '','' then map_option ((#) Comma) (tokens cs)
      else if c = CHR 0x22 then
        (case string_body cs of
           None \<Rightarrow> None
         | Some r \<Rightarrow> map_option ((#) (Str (fst r))) (tokens (snd r)))
      else None)"
  by pat_completeness auto
termination
  by (relation "measure length") (auto dest: string_body_shorter)

text \<open>The members of a record up to its closing brace, and the record they make.\<close>

fun record_members :: "token list \<Rightarrow> (job \<times> token list) option" where
  "record_members (Str k # Colon # Str v # t # ts) =
     (if t = Comma then map_option (\<lambda>r. ((k, v) # fst r, snd r)) (record_members ts)
      else if t = RBrace then Some ([(k, v)], ts)
      else None)"
| "record_members ts = None"

definition object_of :: "'v obj \<Rightarrow> 'v obj" where
  "object_of ms = foldl (\<lambda>ob m. obj_set ob (fst m) (snd m)) [] ms"

fun record_value :: "token list \<Rightarrow> (job \<times> token list) option" where
  "record_value (LBrace # t # ts) =
     (if t = RBrace then Some ([], ts)
      else map_option (\<lambda>r. (object_of (fst r), snd r)) (record_members (t # ts)))"
| "record_value ts = None"

lemma fields_shorter: "record_members ts = Some r \<Longrightarrow> length (snd r) < length ts"
  by (induction ts arbitrary: r rule: record_members.induct) (auto split: if_splits)

lemma record_value_shorter: "record_value ts = Some r \<Longrightarrow> length (snd r) < length ts"
  by (induction ts rule: record_value.induct) (auto split: if_splits dest: fields_shorter)

function entries :: "token list \<Rightarrow> (jobs \<times> token list) option" where
  "entries (Str k # Colon # ts) =
     (case record_value ts of
        None \<Rightarrow> None
      | Some r \<Rightarrow>
          (case snd r of
             [] \<Rightarrow> None
           | t # ts' \<Rightarrow>
               if t = Comma then map_option (\<lambda>q. ((k, fst r) # fst q, snd q)) (entries ts')
               else if t = RBrace then Some ([(k, fst r)], ts')
               else None))"
| "entries [] = None"
| "entries [t] = None"
| "entries (LBrace # t # ts) = None"
| "entries (RBrace # t # ts) = None"
| "entries (Colon # t # ts) = None"
| "entries (Comma # t # ts) = None"
| "entries (Str k # LBrace # ts) = None"
| "entries (Str k # RBrace # ts) = None"
| "entries (Str k # Comma # ts) = None"
| "entries (Str k # Str v # ts) = None"
  by pat_completeness auto
termination
  by (relation "measure length") (auto dest: record_value_shorter)

definition JSON_parse :: "string \<Rightarrow> jobs option" where
  "JSON_parse text =
     (case tokens text of
        None \<Rightarrow> None
      | Some ts \<Rightarrow>
          (case ts of
             LBrace # t # ts' \<Rightarrow>
               if t = RBrace then (if ts' = [] then Some [] else None)
               else (case entries (t # ts') of
                       None \<Rightarrow> None
                     | Some r \<Rightarrow> if snd r = [] then Some (object_of (fst r)) else None)
           | _ \<Rightarrow> None))"

text \<open>A job map has one entry per id and each record one member per key.\<close>

definition wf_jobs :: "jobs \<Rightarrow> bool" where
  "wf_jobs js \<longleftrightarrow> distinct (obj_keys js) \<and> list_all (\<lambda>e. distinct (obj_keys (snd e))) js"

section \<open>Requests, responses and the platform\<close>

text \<open>JSON values as far as the response bodies need them.\<close>

datatype json = JString string | JObject "(string \<times> json) list"

record response =
  status :: nat
  payload :: json

record request =
  headers :: "string obj"
  body :: "string obj"
  param_id :: string

text \<open>
  What the process takes from its platform: \<open>cron.validate\<close> of node-cron, whether
  \<open>new URL(url)\<close> succeeds, and \<open>process.env.API_KEY\<close>. \<open>cron.schedule\<close> parses
  its expression with the validation behind \<open>cron.validate\<close> and throws exactly when
  that fails; a value that is not a string never validates.
\<close>

record platform =
  cron_validate :: "string \<Rightarrow> bool"
  url_parses :: "string \<Rightarrow> bool"
  API_KEY :: "string option"

datatype error = WriteFailed | InvalidPattern

fun message :: "error \<Rightarrow> string" where
  "message WriteFailed = ''ENOENT: no such file or directory''"
| "message InvalidPattern = ''invalid cron expression''"

section \<open>State of the process\<close>

text \<open>
  A \<open>timer\<close> is one scheduled task object made by \<open>cron.schedule\<close>: the closure of
  the callback holds \<open>id\<close>, \<open>url\<close> and \<open>cronSecret\<close>, the task holds the schedule and
  whether it is still running. \<open>tasks\<close> is the heap of every task ever made, addressed
  by position; \<open>activeJobs\<close> is the Map from job id to task. \<open>jobsFile\<close> is the text
  of \<open>data/jobs.json\<close> (\<open>None\<close>: there is no file). \<open>dataDir\<close> says whether the data
  directory exists: writing the file fails without it. \<open>fetched\<close> lists the calls to
  \<open>fetch\<close>, \<open>console\<close> the lines logged.
\<close>

record timer =
  t_id :: string
  t_url :: "string option"
  t_schedule :: string
  t_cronSecret :: "string option"
  running :: bool

record fetch_call =
  f_url :: "string option"
  f_method :: string
  f_headers :: "string obj"

datatype fetch_outcome = Responded nat | Rejected string

datatype log_line =
  Executed string string nat
| ErrorExecuting string string string

record state =
  dataDir :: bool
  jobsFile :: "string option"
  tasks :: "timer list"
  activeJobs :: "string \<rightharpoonup> nat"
  fetched :: "fetch_call list"
  console :: "log_line list"

definition initial :: state where
  "initial = \<lparr>dataDir = False, jobsFile = None, tasks = [], activeJobs = Map.empty,
     fetched = [], console = []\<rparr>"

section \<open>Persistence\<close>

definition ensureDataDirectory :: "state \<Rightarrow> state" where
  "ensureDataDirectory s = (if dataDir s then s else s\<lparr>dataDir := True\<rparr>)"

text \<open>\<open>loadJobs\<close> answers the empty map when reading or parsing throws.\<close>

definition loadJobs :: "state \<Rightarrow> jobs" where
  "loadJobs s =
     (case jobsFile s of
        None \<Rightarrow> []
      | Some text \<Rightarrow> (case JSON_parse text of None \<Rightarrow> [] | Some js \<Rightarrow> js))"

definition saveJobs :: "jobs \<Rightarrow> state \<Rightarrow> error option \<times> state" where
  "saveJobs js s =
     (if dataDir s then (None, s\<lparr>jobsFile := Some (JSON_stringify js)\<rparr>)
      else (Some WriteFailed, s))"

section \<open>Scheduler\<close>

definition stop :: "nat \<Rightarrow> state \<Rightarrow> state" where
  "stop h s = s\<lparr>tasks := (tasks s)[h := (tasks s ! h)\<lparr>running := False\<rparr>]\<rparr>"

definition startJob ::
  "platform \<Rightarrow> string \<Rightarrow> string option \<Rightarrow> string option \<Rightarrow> string option \<Rightarrow> state
     \<Rightarrow> error option \<times> state" where
  "startJob P job_id url schedule cronSecret s =
     (let s1 = (case activeJobs s job_id of None \<Rightarrow> s | Some h \<Rightarrow> stop h s)
      in case schedule of
           None \<Rightarrow> (Some InvalidPattern, s1)
         | Some expr \<Rightarrow>
             if \<not> cron_validate P expr then (Some InvalidPattern, s1)
             else
               (None,
                s1\<lparr>tasks := tasks s1 @
                       [\<lparr>t_id = job_id, t_url = url, t_schedule = expr,
                         t_cronSecret = cronSecret, running = True\<rparr>],
                    activeJobs := (activeJobs s1)(job_id \<mapsto> length (tasks s1))\<rparr>))"

text \<open>The block of the DELETE route that stops and forgets the task of an id.\<close>

definition stopJob :: "string \<Rightarrow> state \<Rightarrow> state" where
  "stopJob job_id s =
     (case activeJobs s job_id of
        None \<Rightarrow> s
      | Some h \<Rightarrow> (stop h s)\<lparr>activeJobs := (activeJobs s)(job_id := None)\<rparr>)"

primrec forEach_startJob :: "platform \<Rightarrow> jobs \<Rightarrow> state \<Rightarrow> error option \<times> state" where
  "forEach_startJob P [] s = (None, s)"
| "forEach_startJob P (e # es) s =
     (case startJob P (fst e) (obj_get (snd e) ''url'') (obj_get (snd e) ''schedule'')
             (obj_get (snd e) ''cronSecret'') s of
        (Some err, s') \<Rightarrow> (Some err, s')
      | (None, s') \<Rightarrow> forEach_startJob P es s')"

definition initializeJobs :: "platform \<Rightarrow> state \<Rightarrow> error option \<times> state" where
  "initializeJobs P s = (let s1 = ensureDataDirectory s in forEach_startJob P (loadJobs s1) s1)"

section \<open>The callback of a task\<close>

definition delivery_headers :: "string option \<Rightarrow> string obj" where
  "delivery_headers cronSecret =
     (let hs = [(''Content-Type'', ''application/json'')]
      in case cronSecret of
           None \<Rightarrow> hs
         | Some secret \<Rightarrow>
             if secret \<noteq> [] then obj_set hs ''Authorization'' (''Bearer '' @ secret) else hs)"

definition callback :: "timer \<Rightarrow> string \<Rightarrow> fetch_outcome \<Rightarrow> fetch_call \<times> log_line" where
  "callback t now outcome =
     (\<lparr>f_url = t_url t, f_method = ''POST'', f_headers = delivery_headers (t_cronSecret t)\<rparr>,
      case outcome of
        Responded code \<Rightarrow> Executed now (t_id t) code
      | Rejected msg \<Rightarrow> ErrorExecuting now (t_id t) msg)"

text \<open>
  One tick of task \<open>h\<close>: a task that was stopped (or never made) does not fire; a
  running one runs its callback, whose outcome the network decides.
\<close>

definition fire :: "nat \<Rightarrow> string \<Rightarrow> fetch_outcome \<Rightarrow> state \<Rightarrow> state" where
  "fire h now outcome s =
     (if h < length (tasks s) \<and> running (tasks s ! h)
      then (case callback (tasks s ! h) now outcome of
              (call, line) \<Rightarrow> s\<lparr>fetched := fetched s @ [call], console := console s @ [line]\<rparr>)
      else s)"

section \<open>The HTTP routes\<close>

definition error_response :: "nat \<Rightarrow> string \<Rightarrow> response" where
  "error_response code msg = \<lparr>status = code, payload = JObject [(''error'', JString msg)]\<rparr>"

text \<open>
  The middleware either answers 401 itself (\<open>Inl\<close>) or calls \<open>next()\<close>, which hands
  the same request to the route's handler (\<open>Inr\<close>).
\<close>

definition apiKeyMiddleware :: "platform \<Rightarrow> request \<Rightarrow> response + request" where
  "apiKeyMiddleware P req =
     (let apiKey = obj_get (headers req) ''x-api-key''
      in if \<not> truthy apiKey \<or> apiKey \<noteq> API_KEY P
         then Inl (error_response 401 ''Unauthorized - Invalid API Key'')
         else Inr req)"

text \<open>
  A field of a response object: \<open>res.json\<close> leaves out a property whose value is
  \<open>undefined\<close>.
\<close>

fun field :: "string \<Rightarrow> string option \<Rightarrow> (string \<times> json) list" where
  "field k None = []"
| "field k (Some v) = [(k, JString v)]"

definition job_record :: "string \<Rightarrow> string \<Rightarrow> string option \<Rightarrow> string \<Rightarrow> job" where
  "job_record url schedule cronSecret now =
     [(''url'', url), (''schedule'', schedule)]
     @ (case cronSecret of None \<Rightarrow> [] | Some c \<Rightarrow> [(''cronSecret'', c)])
     @ [(''createdAt'', now), (''createdBy'', ''JIMEX-X'')]"

definition created_fields :: "job option \<Rightarrow> (string \<times> json) list" where
  "created_fields stored =
     (case stored of
        None \<Rightarrow> []
      | Some j \<Rightarrow> field ''createdAt'' (obj_get j ''createdAt'')
                 @ field ''createdBy'' (obj_get j ''createdBy''))"

text \<open>
  The POST handler awaits twice, so it runs in three pieces, and other handlers and
  timers may run between them. \<open>post_checks\<close> is the piece up to the call of
  \<open>loadJobs\<close>: it answers a 400 or passes on the id, url, schedule and secret of the
  request. \<open>post_store\<close> runs when \<open>loadJobs\<close> has returned the map \<open>js\<close>: it assigns
  the record and calls \<open>saveJobs\<close>. \<open>post_start\<close> runs when the file is written: it
  calls \<open>startJob\<close> and answers, reading \<open>createdAt\<close> and \<open>createdBy\<close> back from the
  map. \<open>post_jobs_handler\<close> is the three pieces with nothing in between.
\<close>

definition post_checks ::
  "platform \<Rightarrow> request \<Rightarrow> response + (string \<times> string \<times> string \<times> string option)" where
  "post_checks P req =
     (let job_id = obj_get (body req) ''id'';
          url = obj_get (body req) ''url'';
          schedule = obj_get (body req) ''schedule'';
          cronSecret = obj_get (body req) ''cronSecret''
      in case (job_id, url, schedule) of
           (Some i, Some u, Some sch) \<Rightarrow>
             if i = [] \<or> u = [] \<or> sch = []
             then Inl (error_response 400 ''Missing required fields'')
             else if \<not> cron_validate P sch
             then Inl (error_response 400 ''Invalid cron schedule'')
             else if \<not> url_parses P u
             then Inl (error_response 400 ''Invalid URL format'')
             else Inr (i, u, sch, cronSecret)
         | _ \<Rightarrow> Inl (error_response 400 ''Missing required fields''))"

fun post_store ::
  "string \<Rightarrow> string \<times> string \<times> string \<times> string option \<Rightarrow> jobs \<Rightarrow> state
     \<Rightarrow> error option \<times> state" where
  "post_store now (i, u, sch, cronSecret) js s =
     saveJobs (js_assign js i (job_record u sch cronSecret now)) s"

fun post_start ::
  "platform \<Rightarrow> string \<Rightarrow> string \<times> string \<times> string \<times> string option \<Rightarrow> jobs \<Rightarrow> state
     \<Rightarrow> response \<times> state" where
  "post_start P now (i, u, sch, cronSecret) js s =
     (case startJob P i (Some u) (Some sch) cronSecret s of
        (Some err, s2) \<Rightarrow> (error_response 500 (message err), s2)
      | (None, s2) \<Rightarrow>
          (\<lparr>status = 200,
            payload = JObject
              [(''message'', JString ''Job added successfully''),
               (''job'', JObject
                  ([(''id'', JString i), (''url'', JString u), (''schedule'', JString sch)]
                   @ created_fields (js_assigned js i (job_record u sch cronSecret now))))]\<rparr>,
           s2))"

definition post_jobs_handler :: "platform \<Rightarrow> string \<Rightarrow> request \<Rightarrow> state \<Rightarrow> response \<times> state" where
  "post_jobs_handler P now req s =
     (case post_checks P req of
        Inl res \<Rightarrow> (res, s)
      | Inr new \<Rightarrow>
          (let js = loadJobs s
           in case post_store now new js s of
                (Some err, s1) \<Rightarrow> (error_response 500 (message err), s1)
              | (None, s1) \<Rightarrow> post_start P now new js s1))"

text \<open>
  The reducer of the listing: \<open>const { cronSecret, ...safeJob } = job\<close> copies every
  property of the record but \<open>cronSecret\<close>. \<open>loadJobs\<close> catches its own failures
  and the reducer cannot throw on records, so the catch of the listing (its 500) is not
  a branch of the model. The accumulator is written with \<open>obj_set\<close>: an own
  \<open>__proto__\<close> key, which the routes never write and only a file edited by hand can
  hold, is listed by the model where the code would drop it.
\<close>

definition safeJob :: "job \<Rightarrow> job" where
  "safeJob j = filter (\<lambda>p. fst p \<noteq> ''cronSecret'') j"

definition sanitizedJobs :: "jobs \<Rightarrow> jobs" where
  "sanitizedJobs js = foldl (\<lambda>acc e. obj_set acc (fst e) (safeJob (snd e))) [] js"

definition jobs_json :: "jobs \<Rightarrow> json" where
  "jobs_json js = JObject (map (\<lambda>e. (fst e, JObject (map (\<lambda>p. (fst p, JString (snd p))) (snd e)))) js)"

definition get_jobs_handler :: "request \<Rightarrow> state \<Rightarrow> response \<times> state" where
  "get_jobs_handler req s =
     (\<lparr>status = 200, payload = jobs_json (sanitizedJobs (loadJobs s))\<rparr>, s)"

text \<open>
  The DELETE handler awaits \<open>loadJobs\<close> too: \<open>delete_job\<close> is what runs when it has
  returned the map \<open>js\<close>, and \<open>delete_jobs_handler\<close> is the handler with nothing in
  between. The test \<open>!jobs[id]\<close> reads through the prototype.
\<close>

definition delete_job :: "request \<Rightarrow> jobs \<Rightarrow> state \<Rightarrow> response \<times> state" where
  "delete_job req js s =
     (let job_id = param_id req
      in if \<not> js_truthy js job_id then (error_response 404 ''Job not found'', s)
         else
           (let s1 = stopJob job_id s
            in case saveJobs (obj_delete js job_id) s1 of
                 (Some err, s2) \<Rightarrow> (error_response 500 (message err), s2)
               | (None, s2) \<Rightarrow>
                   (\<lparr>status = 200,
                     payload = JObject [(''message'', JString ''Job deleted successfully'')]\<rparr>,
                    s2)))"

definition delete_jobs_handler :: "request \<Rightarrow> state \<Rightarrow> response \<times> state" where
  "delete_jobs_handler req s = delete_job req (loadJobs s) s"

datatype route = POST_jobs | GET_jobs | DELETE_jobs

definition handler :: "platform \<Rightarrow> route \<Rightarrow> string \<Rightarrow> request \<Rightarrow> state \<Rightarrow> response \<times> state" where
  "handler P r now req s =
     (case r of
        POST_jobs \<Rightarrow> post_jobs_handler P now req s
      | GET_jobs \<Rightarrow> get_jobs_handler req s
      | DELETE_jobs \<Rightarrow> delete_jobs_handler req s)"

definition serve :: "platform \<Rightarrow> route \<Rightarrow> string \<Rightarrow> request \<Rightarrow> state \<Rightarrow> response \<times> state" where
  "serve P r now req s =
     (case apiKeyMiddleware P req of
        Inl res \<Rightarrow> (res, s)
      | Inr req' \<Rightarrow> handler P r now req' s)"

section \<open>Observing the scheduler\<close>

text \<open>
  The live timers of a job id: the tasks made for it that are still running. The armed
  entry of an id is what the task registered under it fires with, when that task is
  running.
\<close>

definition live_timers :: "state \<Rightarrow> string \<Rightarrow> nat list" where
  "live_timers s i =
     filter (\<lambda>h. t_id (tasks s ! h) = i \<and> running (tasks s ! h)) [0..<length (tasks s)]"

type_synonym entry = "string option \<times> string \<times> string option"

definition armed :: "state \<Rightarrow> string \<Rightarrow> entry option" where
  "armed s i =
     (case activeJobs s i of
        None \<Rightarrow> None
      | Some h \<Rightarrow>
          if h < length (tasks s) \<and> running (tasks s ! h)
          then Some (t_url (tasks s ! h), t_schedule (tasks s ! h), t_cronSecret (tasks s ! h))
          else None)"

text \<open>
  Sequences of scheduler operations: a call of \<open>startJob\<close> (the caller goes on after a
  throw, with the state the throw left) or the stop-and-forget block of the DELETE route.
\<close>

datatype command = Start string "string option" string "string option" | Remove string

fun exec :: "platform \<Rightarrow> state \<Rightarrow> command \<Rightarrow> state" where
  "exec P s (Start i u e c) = snd (startJob P i u (Some e) c s)"
| "exec P s (Remove i) = stopJob i s"

definition run :: "platform \<Rightarrow> command list \<Rightarrow> state \<Rightarrow> state" where
  "run P cs s = foldl (exec P) s cs"

fun parses :: "platform \<Rightarrow> command \<Rightarrow> bool" where
  "parses P (Start i u e c) = cron_validate P e"
| "parses P (Remove i) = True"

text \<open>
  The registry in the words of the specification: a start registers the id with the
  entry supplied, replacing what the id had; a removal unregisters it.
\<close>

fun register :: "(string \<rightharpoonup> entry) \<Rightarrow> command \<Rightarrow> (string \<rightharpoonup> entry)" where
  "register m (Start i u e c) = m(i \<mapsto> (u, e, c))"
| "register m (Remove i) = m(i := None)"

text \<open>
  What each id is armed with after an operation, whether or not its schedule parses: a
  start whose schedule parses arms the id with the entry supplied; a start whose schedule
  does not parse, like a removal, leaves the id with no live timer.
\<close>

fun track :: "platform \<Rightarrow> (string \<rightharpoonup> entry) \<Rightarrow> command \<Rightarrow> (string \<rightharpoonup> entry)" where
  "track P m (Start i u e c) = (if cron_validate P e then m(i \<mapsto> (u, e, c)) else m(i := None))"
| "track P m (Remove i) = m(i := None)"

text \<open>
  The invariant of the task heap: a running task is the one registered under its id,
  and a registered task exists and was made for the id it is registered under.
\<close>

definition consistent :: "state \<Rightarrow> bool" where
  "consistent s \<longleftrightarrow>
     (\<forall>h < length (tasks s). running (tasks s ! h) \<longrightarrow> activeJobs s (t_id (tasks s ! h)) = Some h)
     \<and> (\<forall>i h. activeJobs s i = Some h \<longrightarrow> h < length (tasks s) \<and> t_id (tasks s ! h) = i)"

section \<open>Observing responses and the store\<close>

fun json_fields :: "json \<Rightarrow> string list" where
  "json_fields (JObject ps) = map fst ps"
| "json_fields (JString v) = []"

fun json_get :: "json \<Rightarrow> string \<Rightarrow> json option" where
  "json_get (JObject ps) k = obj_get ps k"
| "json_get (JString v) k = None"

text \<open>
  Two stores that differ only in secrets: one is the other with the \<open>cronSecret\<close> of
  each record reassigned, to a new value or to none.
\<close>

definition set_secret :: "string option \<Rightarrow> job \<Rightarrow> job" where
  "set_secret c j =
     (case c of None \<Rightarrow> obj_delete j ''cronSecret'' | Some v \<Rightarrow> obj_set j ''cronSecret'' v)"


text \<open>
  What a persisted record arms its timer with; whether its schedule parses; the stores
  whose schedules all parse; and the shape of the records that POST /jobs writes.
\<close>

definition entry_of :: "job \<Rightarrow> entry option" where
  "entry_of j =
     (case obj_get j ''schedule'' of
        None \<Rightarrow> None
      | Some e \<Rightarrow> Some (obj_get j ''url'', e, obj_get j ''cronSecret''))"

definition entry_parses :: "platform \<Rightarrow> string \<times> job \<Rightarrow> bool" where
  "entry_parses P e =
     (case obj_get (snd e) ''schedule'' of None \<Rightarrow> False | Some x \<Rightarrow> cron_validate P x)"

definition replayable :: "platform \<Rightarrow> jobs \<Rightarrow> bool" where
  "replayable P js =
     list_all (\<lambda>e. case obj_get (snd e) ''schedule'' of
                      None \<Rightarrow> False
                    | Some x \<Rightarrow> cron_validate P x) js"

definition store_ok :: "platform \<Rightarrow> state \<Rightarrow> bool" where
  "store_ok P s \<longleftrightarrow> distinct (obj_keys (loadJobs s)) \<and> replayable P (loadJobs s)"

definition shaped :: "jobs \<Rightarrow> bool" where
  "shaped js =
     list_all (\<lambda>e. obj_keys (snd e) = [''url'', ''schedule'', ''createdAt'', ''createdBy'']
                  \<or> obj_keys (snd e)
                      = [''url'', ''schedule'', ''cronSecret'', ''createdAt'', ''createdBy'']) js"

text \<open>
  A run of the service: the process starts on a machine without the file, which runs
  \<open>initializeJobs\<close>, and then serves requests one after the other. A restart of the
  process loses the tasks and the active-jobs map and keeps the files.
\<close>

type_synonym call = "route \<times> string \<times> request"

fun serve_all :: "platform \<Rightarrow> call list \<Rightarrow> state \<Rightarrow> state" where
  "serve_all P [] s = s"
| "serve_all P ((r, now, req) # cs) s = serve_all P cs (snd (serve P r now req s))"

definition startup :: "platform \<Rightarrow> state" where
  "startup P = snd (initializeJobs P initial)"

definition restart :: "state \<Rightarrow> state" where
  "restart s = s\<lparr>tasks := [], activeJobs := Map.empty\<rparr>"

text \<open>The tokens of the text that \<open>JSON_stringify\<close> writes.\<close>

fun field_members :: "job \<Rightarrow> token list" where
  "field_members [] = []"
| "field_members [m] = [Str (fst m), Colon, Str (snd m)]"
| "field_members (m # m' # ms) = Str (fst m) # Colon # Str (snd m) # Comma # field_members (m' # ms)"

definition record_tokens :: "job \<Rightarrow> token list" where
  "record_tokens r = LBrace # field_members r @ [RBrace]"

fun entry_members :: "jobs \<Rightarrow> token list" where
  "entry_members [] = []"
| "entry_members [e] = Str (fst e) # Colon # record_tokens (snd e)"
| "entry_members (e # e' # es) =
     Str (fst e) # Colon # record_tokens (snd e) @ Comma # entry_members (e' # es)"

definition jobs_tokens :: "jobs \<Rightarrow> token list" where
  "jobs_tokens js = LBrace # entry_members js @ [RBrace]"

definition renders :: "string \<Rightarrow> token list \<Rightarrow> bool" where
  "renders text ts \<longleftrightarrow> (\<forall>rest. tokens (text @ rest) = map_option ((@) ts) (tokens rest))"

section \<open>Sample inputs\<close>

text \<open>
  A platform to evaluate the definitions on: its validator accepts three well-formed
  five-field expressions and nothing else (so it rejects \<open>* * *\<close>, which has too
  few fields, and \<open>99 * * * *\<close>, whose minute is out of range, as node-cron does),
  its URL check accepts what starts with \<open>http://\<close> or \<open>https://\<close> and goes on.
\<close>

definition sample_validate :: "string \<Rightarrow> bool" where
  "sample_validate e = (e = ''* * * * *'' \<or> e = ''*/5 * * * *'' \<or> e = ''0 * * * *'')"

definition sample_url_parses :: "string \<Rightarrow> bool" where
  "sample_url_parses u =
     ((take 7 u = ''http://'' \<and> 7 < length u) \<or> (take 8 u = ''https://'' \<and> 8 < length u))"

definition sample_platform :: "string option \<Rightarrow> platform" where
  "sample_platform key =
     \<lparr>cron_validate = sample_validate, url_parses = sample_url_parses, API_KEY = key\<rparr>"

definition sample_request :: "string obj \<Rightarrow> string obj \<Rightarrow> string \<Rightarrow> request" where
  "sample_request hs b i = \<lparr>headers = hs, body = b, param_id = i\<rparr>"

section \<open>Properties of property bags\<close>

lemma obj_get_obj_set: "obj_get (obj_set ob k v) k' = (if k' = k then Some v else obj_get ob k')"
  by (induction ob) auto

lemma obj_get_obj_delete: "obj_get (obj_delete ob k) k' = (if k' = k then None else obj_get ob k')"
  by (induction ob) auto

lemma obj_get_None_iff: "obj_get ob k = None \<longleftrightarrow> k \<notin> set (obj_keys ob)"
  by (induction ob) (auto simp: obj_keys_def)

lemma obj_get_Some_mem: "obj_get ob k = Some v \<Longrightarrow> (k, v) \<in> set ob"
  by (induction ob) (auto split: if_splits)

lemma obj_get_distinct: "distinct (obj_keys ob) \<Longrightarrow> (k, v) \<in> set ob \<Longrightarrow> obj_get ob k = Some v"
  by (induction ob) (auto simp: obj_keys_def rev_image_eqI)

lemma set_obj_keys_obj_set: "set (obj_keys (obj_set ob k v)) = insert k (set (obj_keys ob))"
  by (induction ob) (auto simp: obj_keys_def)

lemma distinct_obj_set: "distinct (obj_keys ob) \<Longrightarrow> distinct (obj_keys (obj_set ob k v))"
proof (induction ob)
  case Nil
  then show ?case by (simp add: obj_keys_def)
next
  case (Cons p ps)
  have "set (map fst (obj_set ps k v)) = insert k (set (map fst ps))"
    using set_obj_keys_obj_set [of ps k v] by (simp add: obj_keys_def)
  with Cons show ?case by (auto simp: obj_keys_def)
qed

lemma set_obj_keys_obj_delete: "set (obj_keys (obj_delete ob k)) = set (obj_keys ob) - {k}"
  by (induction ob) (auto simp: obj_keys_def)

lemma distinct_obj_delete: "distinct (obj_keys ob) \<Longrightarrow> distinct (obj_keys (obj_delete ob k))"
proof (induction ob)
  case Nil
  then show ?case by (simp add: obj_keys_def)
next
  case (Cons p ps)
  have "set (map fst (obj_delete ps k)) = set (map fst ps) - {k}"
    using set_obj_keys_obj_delete [of ps k] by (simp add: obj_keys_def)
  with Cons show ?case by (auto simp: obj_keys_def)
qed

lemma obj_delete_absent: "obj_get ob k = None \<Longrightarrow> obj_delete ob k = ob"
  by (induction ob) (auto split: if_splits)

section \<open>The jobs file round trip\<close>

lemma hex_value_hex_digit: "k < 16 \<Longrightarrow> hex_value (hex_digit k) = Some k"
  by (simp add: hex_value_def hex_digit_def Let_def)

lemma hex_value_zero: "hex_value (CHR ''0'') = Some 0"
  by (simp add: hex_value_def)

lemma hex4_control:
  assumes "n < 32"
  shows "hex4 (CHR ''0'') (CHR ''0'') (hex_digit (n div 16)) (hex_digit (n mod 16)) = Some n"
proof -
  have "n div 16 < 16" "n mod 16 < 16"
    using assms by simp_all
  then show ?thesis
    by (simp add: hex4_def hex_value_zero hex_value_hex_digit)
qed

lemma string_body_escape:
  "string_body (escape c @ rest) = map_option (\<lambda>r. (c # fst r, snd r)) (string_body rest)"
proof -
  consider (named) "c \<in> {CHR 0x22, CHR 0x5C, CHR 0x08, CHR 0x0C, CHR 0x0A, CHR 0x0D, CHR 0x09}"
    | (control) "c \<notin> {CHR 0x22, CHR 0x5C, CHR 0x08, CHR 0x0C, CHR 0x0A, CHR 0x0D, CHR 0x09}"
        "of_char c < (32::nat)"
    | (plain) "c \<notin> {CHR 0x22, CHR 0x5C, CHR 0x08, CHR 0x0C, CHR 0x0A, CHR 0x0D, CHR 0x09}"
        "\<not> of_char c < (32::nat)"
    by blast
  then show ?thesis
  proof cases
    case named
    then show ?thesis
      by (auto simp: escape_def simple_escape_def)
  next
    case control
    have u: "utf8 (of_char c) = [c]"
      using control(2) by (simp add: utf8_def)
    show ?thesis
      using control
      by (simp add: escape_def hex4_control u)
  next
    case plain
    then show ?thesis
      by (simp add: escape_def)
  qed
qed

lemma string_body_quoted:
  "string_body (concat (map escape s) @ CHR 0x22 # rest) = Some (s, rest)"
  by (induction s) (simp_all add: string_body_escape)

lemma map_append_Nil: "map_option ((@) []) x = x"
  by (cases x) simp_all

lemma map_append_Cons: "map_option ((@) (t # ts)) x = map_option ((#) t) (map_option ((@) ts) x)"
  by (cases x) simp_all

lemma map_append_append:
  "map_option ((@) (a @ b)) x = map_option ((@) a) (map_option ((@) b) x)"
  by (cases x) simp_all

lemma renders_Nil: "renders [] []"
  by (simp add: renders_def map_append_Nil)

lemma renders_append: "renders a ta \<Longrightarrow> renders b tb \<Longrightarrow> renders (a @ b) (ta @ tb)"
  by (simp add: renders_def map_append_append)

lemma renders_whitespace: "list_all whitespace w \<Longrightarrow> renders w []"
  by (induction w) (simp_all add: renders_def map_append_Nil)

lemma renders_quote: "renders (json_quote s) [Str s]"
  by (simp add: renders_def json_quote_def whitespace_def string_body_quoted
      map_append_Cons map_append_Nil)

lemma renders_punctuation:
  "renders ''{'' [LBrace]" "renders ''}'' [RBrace]" "renders '':'' [Colon]" "renders '','' [Comma]"
  by (simp_all add: renders_def whitespace_def map_append_Cons map_append_Nil)

lemma renders_space: "renders '' '' []" "renders [CHR 0x0A] []"
  by (simp_all add: renders_def whitespace_def map_append_Nil)

lemma renders_tokens:
  assumes "renders text ts"
  shows "tokens text = Some ts"
proof -
  have "tokens (text @ []) = map_option ((@) ts) (tokens [])"
    using assms unfolding renders_def by blast
  then show ?thesis by simp
qed

lemma renders_fields:
  assumes "list_all whitespace ind"
  shows "renders (members_text ind (map (\<lambda>p. (fst p, json_quote (snd p))) r)) (field_members r)"
proof (induction r rule: field_members.induct)
  case 1
  then show ?case by (simp add: renders_Nil)
next
  case (2 m)
  have "renders (ind @ json_quote (fst m) @ '':'' @ '' '' @ json_quote (snd m))
          ([] @ [Str (fst m)] @ [Colon] @ [] @ [Str (snd m)])"
    by (intro renders_append renders_whitespace assms renders_quote renders_punctuation
        renders_space)
  then show ?case by simp
next
  case (3 m m' ms)
  have "renders (ind @ json_quote (fst m) @ '':'' @ '' '' @ json_quote (snd m) @ '','' @ [CHR 0x0A]
           @ members_text ind (map (\<lambda>p. (fst p, json_quote (snd p))) (m' # ms)))
          ([] @ [Str (fst m)] @ [Colon] @ [] @ [Str (snd m)] @ [Comma] @ []
           @ field_members (m' # ms))"
    by (intro renders_append renders_whitespace assms renders_quote renders_punctuation
        renders_space "3.IH")
  then show ?case by simp
qed

lemma renders_object:
  assumes "list_all whitespace ind" and "renders (members_text (ind @ ''  '') ms) ts"
  shows "renders (object_text ind ms) (LBrace # ts @ [RBrace])"
proof (cases "ms = []")
  case True
  have "renders (''{'' @ ''}'') ([LBrace] @ [RBrace])"
    by (intro renders_append renders_punctuation)
  moreover have "ts = []"
    using assms(2) True renders_tokens [of "[]" ts] by simp
  ultimately show ?thesis
    using True by (simp add: object_text_def)
next
  case False
  have "renders (''{'' @ [CHR 0x0A] @ members_text (ind @ ''  '') ms @ [CHR 0x0A] @ ind @ ''}'')
          ([LBrace] @ [] @ ts @ [] @ [] @ [RBrace])"
    by (intro renders_append renders_whitespace assms renders_punctuation renders_space)
  then show ?thesis
    using False by (simp add: object_text_def)
qed

lemma renders_record: "renders (object_text ''  '' (map (\<lambda>p. (fst p, json_quote (snd p))) r)) (record_tokens r)"
  unfolding record_tokens_def
  by (rule renders_object) (simp_all add: whitespace_def renders_fields)

lemma renders_entries:
  assumes "list_all whitespace ind"
  shows "renders
           (members_text ind
              (map (\<lambda>e. (fst e, object_text ''  '' (map (\<lambda>p. (fst p, json_quote (snd p))) (snd e)))) js))
           (entry_members js)"
proof (induction js rule: entry_members.induct)
  case 1
  then show ?case by (simp add: renders_Nil)
next
  case (2 e)
  have "renders (ind @ json_quote (fst e) @ '':'' @ '' ''
           @ object_text ''  '' (map (\<lambda>p. (fst p, json_quote (snd p))) (snd e)))
          ([] @ [Str (fst e)] @ [Colon] @ [] @ record_tokens (snd e))"
    by (intro renders_append renders_whitespace assms renders_quote renders_punctuation
        renders_space renders_record)
  then show ?case by simp
next
  case (3 e e' es)
  have "renders (ind @ json_quote (fst e) @ '':'' @ '' ''
           @ object_text ''  '' (map (\<lambda>p. (fst p, json_quote (snd p))) (snd e)) @ '','' @ [CHR 0x0A]
           @ members_text ind
               (map (\<lambda>e. (fst e, object_text ''  '' (map (\<lambda>p. (fst p, json_quote (snd p))) (snd e))))
                  (e' # es)))
          ([] @ [Str (fst e)] @ [Colon] @ [] @ record_tokens (snd e) @ [Comma] @ []
           @ entry_members (e' # es))"
    by (intro renders_append renders_whitespace assms renders_quote renders_punctuation
        renders_space renders_record "3.IH")
  then show ?case by simp
qed

lemma tokens_JSON_stringify: "tokens (JSON_stringify js) = Some (jobs_tokens js)"
proof -
  have "renders (JSON_stringify js) (jobs_tokens js)"
    unfolding JSON_stringify_def jobs_tokens_def
    by (rule renders_object) (simp_all add: whitespace_def renders_entries)
  then show ?thesis by (rule renders_tokens)
qed


lemma obj_set_fresh: "k \<notin> set (obj_keys ob) \<Longrightarrow> obj_set ob k v = ob @ [(k, v)]"
  by (induction ob) (auto simp: obj_keys_def)

lemma snd_obj_set: "snd ` set (obj_set ob k v) \<subseteq> insert v (snd ` set ob)"
  by (induction ob) auto

lemma fold_obj_set_distinct:
  "distinct (obj_keys (acc @ ms)) \<Longrightarrow>
   foldl (\<lambda>ob m. obj_set ob (fst m) (snd m)) acc ms = acc @ ms"
proof (induction ms arbitrary: acc)
  case Nil
  then show ?case by simp
next
  case (Cons m ms)
  have "fst m \<notin> set (obj_keys acc)"
    using Cons.prems by (auto simp: obj_keys_def)
  then have "obj_set acc (fst m) (snd m) = acc @ [m]"
    by (simp add: obj_set_fresh)
  with Cons.IH [of "acc @ [m]"] Cons.prems show ?case by simp
qed

lemma object_of_distinct: "distinct (obj_keys ms) \<Longrightarrow> object_of ms = ms"
  using fold_obj_set_distinct [of "[]" ms] by (simp add: object_of_def)

lemma fold_obj_set_keys:
  "distinct (obj_keys acc) \<Longrightarrow>
   distinct (obj_keys (foldl (\<lambda>ob m. obj_set ob (fst m) (snd m)) acc ms))"
  by (induction ms arbitrary: acc) (simp_all add: distinct_obj_set)

lemma fold_obj_set_values:
  "snd ` set (foldl (\<lambda>ob m. obj_set ob (fst m) (snd m)) acc ms) \<subseteq> snd ` set acc \<union> snd ` set ms"
proof (induction ms arbitrary: acc)
  case Nil
  then show ?case by simp
next
  case (Cons m ms)
  have "snd ` set (foldl (\<lambda>ob m. obj_set ob (fst m) (snd m)) (obj_set acc (fst m) (snd m)) ms)
      \<subseteq> snd ` set (obj_set acc (fst m) (snd m)) \<union> snd ` set ms"
    by (rule Cons.IH)
  also have "\<dots> \<subseteq> insert (snd m) (snd ` set acc) \<union> snd ` set ms"
    using snd_obj_set [of acc "fst m" "snd m"] by blast
  finally show ?case by auto
qed

lemma distinct_object_of: "distinct (obj_keys (object_of ms))"
  using fold_obj_set_keys [of "[]" ms] by (simp add: object_of_def obj_keys_def)

lemma values_object_of: "snd ` set (object_of ms) \<subseteq> snd ` set ms"
  using fold_obj_set_values [of "[]" ms] by (simp add: object_of_def)

lemma fields_members:
  "r \<noteq> [] \<Longrightarrow> record_members (field_members r @ RBrace # ts) = Some (r, ts)"
  by (induction r rule: field_members.induct) simp_all

lemma record_value_tokens: "record_value (record_tokens r @ ts) = Some (object_of r, ts)"
proof (cases r)
  case Nil
  then show ?thesis by (simp add: record_tokens_def object_of_def)
next
  case (Cons m ms)
  then have "r \<noteq> []" by simp
  from fields_members [OF this, of ts] obtain t ts' where
    "field_members r @ RBrace # ts = t # ts'" "t \<noteq> RBrace"
    "record_members (t # ts') = Some (r, ts)"
    using Cons by (cases ms) auto
  then show ?thesis
    by (simp add: record_tokens_def)
qed

lemma entries_members:
  "js \<noteq> [] \<Longrightarrow>
   entries (entry_members js @ RBrace # ts) = Some (map (\<lambda>e. (fst e, object_of (snd e))) js, ts)"
  by (induction js rule: entry_members.induct) (simp_all add: record_value_tokens)

lemma JSON_parse_tokens:
  "tokens text = Some (jobs_tokens js) \<Longrightarrow>
   JSON_parse text = Some (object_of (map (\<lambda>e. (fst e, object_of (snd e))) js))"
proof (cases js)
  case Nil
  assume "tokens text = Some (jobs_tokens js)"
  with Nil show ?thesis
    by (simp add: JSON_parse_def jobs_tokens_def object_of_def)
next
  case (Cons e es)
  assume t: "tokens text = Some (jobs_tokens js)"
  have ne: "js \<noteq> []" using Cons by simp
  obtain t' ts' where h: "entry_members js @ [RBrace] = t' # ts'" "t' \<noteq> RBrace"
    using Cons by (cases es) auto
  have "entries (t' # ts') = Some (map (\<lambda>e. (fst e, object_of (snd e))) js, [])"
    using entries_members [OF ne, of "[]"] h(1) by simp
  with t h show ?thesis
    by (simp add: JSON_parse_def jobs_tokens_def)
qed

lemma JSON_round_trip: "wf_jobs js \<Longrightarrow> JSON_parse (JSON_stringify js) = Some js"
proof -
  assume wf: "wf_jobs js"
  have "list_all (\<lambda>e. distinct (obj_keys (snd e))) js"
    using wf by (simp add: wf_jobs_def)
  then have "map (\<lambda>e. (fst e, object_of (snd e))) js = js"
    by (induction js) (simp_all add: object_of_distinct)
  moreover have "object_of js = js"
    using wf by (simp add: wf_jobs_def object_of_distinct)
  ultimately show ?thesis
    using JSON_parse_tokens [OF tokens_JSON_stringify, of js] by simp
qed

lemma record_value_distinct: "record_value ts = Some r \<Longrightarrow> distinct (obj_keys (fst r))"
  by (induction ts rule: record_value.induct)
    (auto simp: obj_keys_def distinct_object_of [unfolded obj_keys_def] split: if_splits)

lemma entries_distinct:
  "entries ts = Some r \<Longrightarrow> list_all (\<lambda>e. distinct (obj_keys (snd e))) (fst r)"
proof (induction ts arbitrary: r rule: entries.induct)
  case (1 k ts)
  then show ?case
    by (auto split: option.splits list.splits if_splits dest: record_value_distinct)
qed simp_all

lemma wf_jobs_JSON_parse:
  assumes "JSON_parse text = Some js"
  shows "wf_jobs js"
proof (cases "js = []")
  case True
  then show ?thesis by (simp add: wf_jobs_def obj_keys_def)
next
  case False
  with assms obtain ts q where q: "entries ts = Some q" "js = object_of (fst q)"
    by (auto simp: JSON_parse_def split: option.splits list.splits if_splits token.splits)
  have "list_all (\<lambda>e. distinct (obj_keys (snd e))) (fst q)"
    using q(1) by (rule entries_distinct)
  then have "\<forall>v \<in> snd ` set (fst q). distinct (obj_keys v)"
    by (auto simp: list_all_iff)
  with values_object_of [of "fst q"] have "\<forall>v \<in> snd ` set js. distinct (obj_keys v)"
    unfolding q(2) by blast
  then show ?thesis
    unfolding q(2) by (auto simp: wf_jobs_def list_all_iff distinct_object_of)
qed

section \<open>Loading and saving\<close>

lemma wf_jobs_loadJobs: "wf_jobs (loadJobs s)"
proof (cases "jobsFile s")
  case None
  then show ?thesis by (simp add: loadJobs_def wf_jobs_def obj_keys_def)
next
  case content: (Some body_text)
  show ?thesis
  proof (cases "JSON_parse body_text")
    case None
    with content show ?thesis by (simp add: loadJobs_def wf_jobs_def obj_keys_def)
  next
    case (Some js)
    with content wf_jobs_JSON_parse [OF Some] show ?thesis
      by (simp add: loadJobs_def)
  qed
qed

lemma distinct_loadJobs: "distinct (obj_keys (loadJobs s))"
  using wf_jobs_loadJobs [of s] by (simp add: wf_jobs_def)

lemma loadJobs_written: "wf_jobs js \<Longrightarrow> loadJobs (s\<lparr>jobsFile := Some (JSON_stringify js)\<rparr>) = js"
  by (simp add: loadJobs_def JSON_round_trip)

lemma saveJobs_dataDir: "dataDir s \<Longrightarrow> saveJobs js s = (None, s\<lparr>jobsFile := Some (JSON_stringify js)\<rparr>)"
  by (simp add: saveJobs_def)

lemma saveJobs_no_dataDir: "\<not> dataDir s \<Longrightarrow> saveJobs js s = (Some WriteFailed, s)"
  by (simp add: saveJobs_def)

lemma loadJobs_saveJobs:
  "wf_jobs js \<Longrightarrow> dataDir s \<Longrightarrow> loadJobs (snd (saveJobs js s)) = js"
  by (simp add: saveJobs_dataDir loadJobs_written)

lemma loadJobs_cong: "jobsFile s = jobsFile s' \<Longrightarrow> loadJobs s = loadJobs s'"
  by (simp add: loadJobs_def)

lemma list_all_obj_set: "list_all Q ob \<Longrightarrow> Q (i, j) \<Longrightarrow> list_all Q (obj_set ob i j)"
  by (induction ob) auto

lemma list_all_obj_delete: "list_all Q ob \<Longrightarrow> list_all Q (obj_delete ob i)"
  by (induction ob) auto

lemma wf_jobs_obj_set:
  "wf_jobs js \<Longrightarrow> distinct (obj_keys j) \<Longrightarrow> wf_jobs (obj_set js i j)"
  by (simp add: wf_jobs_def distinct_obj_set list_all_obj_set)

lemma wf_jobs_obj_delete: "wf_jobs js \<Longrightarrow> wf_jobs (obj_delete js i)"
  by (simp add: wf_jobs_def distinct_obj_delete list_all_obj_delete)

lemma distinct_job_record: "distinct (obj_keys (job_record u e c now))"
  by (cases c) (simp_all add: job_record_def obj_keys_def)

lemma wf_jobs_js_assign:
  "wf_jobs js \<Longrightarrow> wf_jobs (js_assign js i (job_record u e c now))"
  by (simp add: js_assign_def wf_jobs_obj_set distinct_job_record)

lemma js_assign_other: "i \<noteq> ''__proto__'' \<Longrightarrow> js_assign js i j = obj_set js i j"
  by (simp add: js_assign_def)

lemma js_assign_proto: "obj_get js ''__proto__'' = None \<Longrightarrow> js_assign js ''__proto__'' j = js"
  by (simp add: js_assign_def)

lemma js_assigned_eq: "js_assigned js i j = Some j"
  by (simp add: js_assigned_def js_assign_def obj_get_obj_set)

section \<open>The API key\<close>

lemma post_checks_status: "post_checks P req = Inl res \<Longrightarrow> status res = 400"
  by (auto simp: post_checks_def error_response_def Let_def split: option.splits if_splits)

lemma post_status: "status (fst (post_jobs_handler P now req s)) \<in> {200, 400, 500}"
proof (cases "post_checks P req")
  case (Inl res)
  then show ?thesis
    by (simp add: post_jobs_handler_def post_checks_status)
next
  case (Inr new)
  obtain i u e c where new: "new = (i, u, e, c)"
    by (cases new)
  show ?thesis
    by (simp add: post_jobs_handler_def Inr new error_response_def Let_def
        split: option.splits prod.splits)
qed

lemma handler_not_401: "status (fst (handler P r now req s)) \<noteq> 401"
proof (cases r)
  case POST_jobs
  with post_status [of P now req s] show ?thesis
    by (auto simp: handler_def)
next
  case GET_jobs
  then show ?thesis by (simp add: handler_def get_jobs_handler_def)
next
  case DELETE_jobs
  then show ?thesis
    by (simp add: handler_def delete_jobs_handler_def delete_job_def error_response_def Let_def
        split: option.splits prod.splits)
qed

text \<open>
  C9, as amended. On each of the three routes the request is answered 401 with the
  unauthorized body, the state untouched, exactly when the \<open>x-api-key\<close> header is
  absent, is the empty string, or differs from the configured key; otherwise the
  middleware hands the request on unchanged and the route's handler answers it.
\<close>

theorem api_key_gate:
  "(fst (serve P r now req s) = error_response 401 ''Unauthorized - Invalid API Key''
      \<longleftrightarrow> obj_get (headers req) ''x-api-key'' = None
          \<or> obj_get (headers req) ''x-api-key'' = Some []
          \<or> obj_get (headers req) ''x-api-key'' \<noteq> API_KEY P)
   \<and> (if obj_get (headers req) ''x-api-key'' = None
          \<or> obj_get (headers req) ''x-api-key'' = Some []
          \<or> obj_get (headers req) ''x-api-key'' \<noteq> API_KEY P
       then serve P r now req s = (error_response 401 ''Unauthorized - Invalid API Key'', s)
       else apiKeyMiddleware P req = Inr req
            \<and> serve P r now req s = handler P r now req s)"
proof (cases "obj_get (headers req) ''x-api-key''")
  case None
  then show ?thesis by (simp add: serve_def apiKeyMiddleware_def)
next
  case (Some k)
  show ?thesis
  proof (cases "k = [] \<or> Some k \<noteq> API_KEY P")
    case True
    with Some show ?thesis by (auto simp: serve_def apiKeyMiddleware_def)
  next
    case False
    have ok: "k \<noteq> []" "API_KEY P = Some k"
      using False by auto
    have "fst (handler P r now req s) \<noteq> error_response 401 ''Unauthorized - Invalid API Key''"
      using handler_not_401 [of P r now req s] by (auto simp: error_response_def)
    then show ?thesis
      by (simp add: serve_def apiKeyMiddleware_def Some ok)
  qed
qed

theorem api_key_gate_witness:
  "fst (serve (sample_platform (Some ''k1'')) GET_jobs ''2024-01-01T00:00:00.000Z''
          (sample_request [(''x-api-key'', ''k1'')] [] []) initial)
     = \<lparr>status = 200, payload = JObject []\<rparr>
   \<and> fst (serve (sample_platform (Some ''k1'')) GET_jobs ''2024-01-01T00:00:00.000Z''
          (sample_request [(''x-api-key'', ''k2'')] [] []) initial)
     = error_response 401 ''Unauthorized - Invalid API Key''"
  using api_key_gate [of "sample_platform (Some ''k1'')" GET_jobs "''2024-01-01T00:00:00.000Z''"
      "sample_request [(''x-api-key'', ''k1'')] [] []" initial]
    api_key_gate [of "sample_platform (Some ''k1'')" GET_jobs "''2024-01-01T00:00:00.000Z''"
      "sample_request [(''x-api-key'', ''k2'')] [] []" initial]
  by (simp add: sample_platform_def sample_request_def handler_def get_jobs_handler_def
      loadJobs_def initial_def sanitizedJobs_def jobs_json_def)

text \<open>
  The claim as stated (rejected exactly when the header is absent or differs from the
  configured key) fails when both the header and the configured key are the empty
  string: the header is present and equal to the key, and the request is rejected.
\<close>

theorem api_key_gate_counterexample:
  "obj_get (headers (sample_request [(''x-api-key'', [])] [] [])) ''x-api-key'' \<noteq> None
   \<and> obj_get (headers (sample_request [(''x-api-key'', [])] [] [])) ''x-api-key''
       = API_KEY (sample_platform (Some []))
   \<and> serve (sample_platform (Some [])) GET_jobs ''2024-01-01T00:00:00.000Z''
         (sample_request [(''x-api-key'', [])] [] []) initial
       = (error_response 401 ''Unauthorized - Invalid API Key'', initial)"
  by (simp add: serve_def apiKeyMiddleware_def sample_platform_def sample_request_def)

section \<open>The task heap\<close>

lemma consistent_initial: "consistent initial"
  by (simp add: consistent_def initial_def)

lemma length_tasks_stop [simp]: "length (tasks (stop h s)) = length (tasks s)"
  by (simp add: stop_def)

lemma activeJobs_stop [simp]: "activeJobs (stop h s) = activeJobs s"
  by (simp add: stop_def)

lemma tasks_stop_nth:
  "k < length (tasks s) \<Longrightarrow>
   tasks (stop h s) ! k = (if k = h then (tasks s ! k)\<lparr>running := False\<rparr> else tasks s ! k)"
  by (simp add: stop_def nth_list_update)

lemma consistent_stop: "consistent s \<Longrightarrow> consistent (stop h s)"
  unfolding consistent_def by (simp add: tasks_stop_nth)

lemma consistent_stopJob: "consistent s \<Longrightarrow> consistent (stopJob i s)"
  unfolding consistent_def stopJob_def
  by (auto simp: tasks_stop_nth split: option.splits)

lemma consistent_startJob: "consistent s \<Longrightarrow> consistent (snd (startJob P i u sc c s))"
  unfolding consistent_def startJob_def
  by (auto simp: tasks_stop_nth nth_append Let_def split: option.splits)

lemma filter_upt_single:
  "(\<And>k. k < n \<Longrightarrow> Q k \<Longrightarrow> k = h) \<Longrightarrow> filter Q [0..<n] = (if h < n \<and> Q h then [h] else [])"
proof (induction n)
  case 0
  then show ?case by simp
next
  case (Suc n)
  then show ?case by (auto simp: less_Suc_eq)
qed

lemma live_timers_consistent:
  "consistent s \<Longrightarrow>
   live_timers s i =
     (case activeJobs s i of None \<Rightarrow> [] | Some h \<Rightarrow> if running (tasks s ! h) then [h] else [])"
proof (cases "activeJobs s i")
  case None
  assume c: "consistent s"
  have "filter (\<lambda>h. t_id (tasks s ! h) = i \<and> running (tasks s ! h)) [0..<length (tasks s)] = []"
    using c None by (auto simp: consistent_def filter_empty_conv)
  with None show ?thesis by (simp add: live_timers_def)
next
  case (Some h)
  assume c: "consistent s"
  have "\<And>k. k < length (tasks s) \<Longrightarrow> t_id (tasks s ! k) = i \<and> running (tasks s ! k) \<Longrightarrow> k = h"
    using c Some by (auto simp: consistent_def)
  from filter_upt_single [of "length (tasks s)" "\<lambda>h. t_id (tasks s ! h) = i \<and> running (tasks s ! h)" h, OF this]
  show ?thesis using c Some by (auto simp: live_timers_def consistent_def)
qed

lemma consistent_inj:
  "consistent s \<Longrightarrow> activeJobs s i = Some h \<Longrightarrow> activeJobs s j = Some h \<Longrightarrow> j = i"
  unfolding consistent_def by metis

lemma consistent_range: "consistent s \<Longrightarrow> activeJobs s i = Some h \<Longrightarrow> h < length (tasks s)"
  unfolding consistent_def by blast

lemma startJob_parses:
  "cron_validate P e \<Longrightarrow>
   startJob P i u (Some e) c s =
     (None,
      (case activeJobs s i of None \<Rightarrow> s | Some h \<Rightarrow> stop h s)
        \<lparr>tasks := tasks (case activeJobs s i of None \<Rightarrow> s | Some h \<Rightarrow> stop h s) @
            [\<lparr>t_id = i, t_url = u, t_schedule = e, t_cronSecret = c, running = True\<rparr>],
         activeJobs := (activeJobs s)(i \<mapsto> length (tasks s))\<rparr>)"
  by (simp add: startJob_def Let_def split: option.splits)

lemma armed_startJob_same:
  "cron_validate P e \<Longrightarrow> armed (snd (startJob P i u (Some e) c s)) i = Some (u, e, c)"
  by (simp add: startJob_parses armed_def nth_append split: option.splits)

lemma armed_startJob_other:
  assumes "consistent s" and "j \<noteq> i"
  shows "armed (snd (startJob P i u sc c s)) j = armed s j"
proof (cases "activeJobs s j")
  case None
  then show ?thesis
    using assms(2) by (simp add: startJob_def armed_def Let_def split: option.splits)
next
  case (Some k)
  have k: "k < length (tasks s)"
    using assms(1) Some by (rule consistent_range)
  have nk: "activeJobs s i \<noteq> Some k"
    using consistent_inj [OF assms(1) _ Some] assms(2) by auto
  define s1 where "s1 = (case activeJobs s i of None \<Rightarrow> s | Some h \<Rightarrow> stop h s)"
  have s1: "length (tasks s1) = length (tasks s)" "tasks s1 ! k = tasks s ! k"
      "activeJobs s1 = activeJobs s"
    using k nk by (auto simp: s1_def tasks_stop_nth split: option.splits)
  show ?thesis
    using assms(2) Some k s1
    by (auto simp: startJob_def armed_def Let_def s1_def [symmetric] nth_append
        split: option.splits)
qed

lemma armed_stopJob_same: "armed (stopJob i s) i = None"
  by (simp add: stopJob_def armed_def split: option.splits)

lemma armed_stopJob_other:
  assumes "consistent s" and "j \<noteq> i"
  shows "armed (stopJob i s) j = armed s j"
proof (cases "activeJobs s j")
  case None
  then show ?thesis
    using assms(2) by (simp add: stopJob_def armed_def split: option.splits)
next
  case (Some k)
  have k: "k < length (tasks s)"
    using assms(1) Some by (rule consistent_range)
  have nk: "activeJobs s i \<noteq> Some k"
    using consistent_inj [OF assms(1) _ Some] assms(2) by auto
  show ?thesis
    using assms(2) Some k nk
    by (auto simp: stopJob_def armed_def tasks_stop_nth split: option.splits)
qed

lemma armed_exec:
  "consistent s \<Longrightarrow> parses P cmd \<Longrightarrow> armed (exec P s cmd) = register (armed s) cmd"
proof (cases cmd)
  case (Start i u e c)
  assume "consistent s" and "parses P cmd"
  then have "armed (exec P s cmd) j = register (armed s) cmd j" for j
    using Start by (cases "j = i") (simp_all add: armed_startJob_same armed_startJob_other)
  then show ?thesis by blast
next
  case (Remove i)
  assume "consistent s"
  then have "armed (exec P s cmd) j = register (armed s) cmd j" for j
    using Remove by (cases "j = i") (simp_all add: armed_stopJob_same armed_stopJob_other)
  then show ?thesis by blast
qed

lemma consistent_exec: "consistent s \<Longrightarrow> consistent (exec P s cmd)"
  by (cases cmd) (simp_all add: consistent_startJob consistent_stopJob)

lemma consistent_run: "consistent s \<Longrightarrow> consistent (run P cs s)"
  unfolding run_def by (induction cs arbitrary: s) (simp_all add: consistent_exec)

lemma armed_run:
  "consistent s \<Longrightarrow> list_all (parses P) cs \<Longrightarrow> armed (run P cs s) = foldl register (armed s) cs"
  unfolding run_def
proof (induction cs arbitrary: s)
  case Nil
  then show ?case by simp
next
  case (Cons cmd cs)
  then show ?case by (simp add: consistent_exec armed_exec)
qed

lemma activeJobs_exec:
  "parses P cmd \<Longrightarrow>
   activeJobs (exec P s cmd) =
     (case cmd of Start i u e c \<Rightarrow> (activeJobs s)(i \<mapsto> length (tasks s))
                | Remove i \<Rightarrow> (activeJobs s)(i := None))"
  by (cases cmd) (auto simp: startJob_parses stopJob_def split: option.splits)

lemma registered_exec:
  assumes "consistent s" and "parses P cmd"
    and "\<And>i. activeJobs s i = None \<longleftrightarrow> armed s i = None"
  shows "activeJobs (exec P s cmd) i = None \<longleftrightarrow> armed (exec P s cmd) i = None"
  unfolding activeJobs_exec [OF assms(2)] armed_exec [OF assms(1,2)]
  using assms(3) [of i] by (cases cmd) simp_all

lemma registered_run:
  "consistent s \<Longrightarrow> list_all (parses P) cs \<Longrightarrow>
   (\<And>i. activeJobs s i = None \<longleftrightarrow> armed s i = None) \<Longrightarrow>
   activeJobs (run P cs s) i = None \<longleftrightarrow> armed (run P cs s) i = None"
  unfolding run_def
proof (induction cs arbitrary: s i)
  case Nil
  then show ?case by simp
next
  case (Cons cmd cs)
  have "activeJobs (foldl (exec P) (exec P s cmd) cs) i = None
          \<longleftrightarrow> armed (foldl (exec P) (exec P s cmd) cs) i = None"
  proof (rule Cons.IH)
    show "consistent (exec P s cmd)" using Cons.prems(1) by (rule consistent_exec)
    show "list_all (parses P) cs" using Cons.prems(2) by simp
    show "activeJobs (exec P s cmd) j = None \<longleftrightarrow> armed (exec P s cmd) j = None" for j
      using Cons.prems by (intro registered_exec) simp_all
  qed
  then show ?case by simp
qed

lemma replaced_timer_stopped:
  assumes "consistent s" and "activeJobs s i = Some h"
  shows "\<not> running (tasks (snd (startJob P i u sc c s)) ! h)"
proof -
  have "h < length (tasks s)"
    using assms by (rule consistent_range)
  then show ?thesis
    using assms(2)
    by (simp add: startJob_def Let_def tasks_stop_nth nth_append split: option.splits)
qed

lemma length_live_timers:
  assumes "consistent s"
  shows "length (live_timers s i) = (if armed s i = None then 0 else 1)"
proof (cases "activeJobs s i")
  case None
  then show ?thesis by (simp add: live_timers_consistent [OF assms] armed_def)
next
  case (Some h)
  have "h < length (tasks s)"
    using assms Some by (rule consistent_range)
  with Some show ?thesis by (simp add: live_timers_consistent [OF assms] armed_def)
qed

lemma armed_startJob_invalid:
  "\<not> cron_validate P e \<Longrightarrow> armed (snd (startJob P i u (Some e) c s)) i = None"
  by (auto simp: startJob_def armed_def Let_def tasks_stop_nth split: option.splits)

lemma armed_exec_track: "consistent s \<Longrightarrow> armed (exec P s cmd) = track P (armed s) cmd"
proof (cases cmd)
  case (Start i u e c)
  assume "consistent s"
  then have "armed (exec P s cmd) j = track P (armed s) cmd j" for j
    using Start
    by (cases "j = i"; cases "cron_validate P e")
      (simp_all add: armed_startJob_same armed_startJob_other armed_startJob_invalid)
  then show ?thesis by blast
next
  case (Remove i)
  assume "consistent s"
  then have "armed (exec P s cmd) j = track P (armed s) cmd j" for j
    using Remove by (cases "j = i") (simp_all add: armed_stopJob_same armed_stopJob_other)
  then show ?thesis by blast
qed

lemma armed_run_track: "consistent s \<Longrightarrow> armed (run P cs s) = foldl (track P) (armed s) cs"
  unfolding run_def
proof (induction cs arbitrary: s)
  case Nil
  then show ?case by simp
next
  case (Cons cmd cs)
  then show ?case by (simp add: consistent_exec armed_exec_track)
qed

text \<open>
  C1, as amended. After any sequence of \<open>startJob\<close> calls and removals, begun with no
  task at all, every job id has at most one live timer, and a call of \<open>startJob\<close> for an
  id that has a task registered leaves that task stopped. An id whose latest operation
  is a \<open>startJob\<close> with a schedule that parses has exactly one live timer, armed with
  the url, schedule and secret of that call; an id whose latest operation is a removal,
  or a \<open>startJob\<close> whose schedule does not parse, has no live timer. When every
  schedule supplied parses, the registered ids are those of the registry the sequence
  describes, each with exactly one live timer, armed with what was supplied last for it.
\<close>

theorem one_live_timer_per_id:
  "length (live_timers (run P cs initial) i) \<le> 1
   \<and> armed (run P cs initial) = foldl (track P) Map.empty cs
   \<and> length (live_timers (run P cs initial) i)
       = (if foldl (track P) Map.empty cs i = None then 0 else 1)
   \<and> (list_all (parses P) cs \<longrightarrow>
        armed (run P cs initial) = foldl register Map.empty cs
        \<and> (activeJobs (run P cs initial) i = None \<longleftrightarrow> foldl register Map.empty cs i = None)
        \<and> length (live_timers (run P cs initial) i)
            = (if foldl register Map.empty cs i = None then 0 else 1))
   \<and> (activeJobs (run P cs initial) i = Some h \<longrightarrow>
        \<not> running (tasks (snd (startJob P i u sc c (run P cs initial))) ! h))"
proof -
  have c: "consistent (run P cs initial)"
    by (rule consistent_run [OF consistent_initial])
  have a0: "armed initial = Map.empty"
    by (rule ext) (simp add: armed_def initial_def)
  have one: "length (live_timers (run P cs initial) i) \<le> 1"
    by (simp add: length_live_timers [OF c])
  have trk: "armed (run P cs initial) = foldl (track P) Map.empty cs"
    using armed_run_track [OF consistent_initial, of P cs] by (simp add: a0)
  have cnt': "length (live_timers (run P cs initial) i)
      = (if foldl (track P) Map.empty cs i = None then 0 else 1)"
    using length_live_timers [OF c, of i] trk by simp
  have reg: "armed (run P cs initial) = foldl register Map.empty cs" if "list_all (parses P) cs"
    using armed_run [OF consistent_initial that] by (simp add: a0)
  have dom: "activeJobs (run P cs initial) i = None \<longleftrightarrow> foldl register Map.empty cs i = None"
    if "list_all (parses P) cs"
  proof -
    have "activeJobs initial j = None \<longleftrightarrow> armed initial j = None" for j
      by (simp add: armed_def initial_def)
    from registered_run [OF consistent_initial that this, of i] show ?thesis
      by (simp add: reg [OF that])
  qed
  have cnt: "length (live_timers (run P cs initial) i)
      = (if foldl register Map.empty cs i = None then 0 else 1)" if "list_all (parses P) cs"
    using length_live_timers [OF c, of i] reg [OF that] by simp
  have old: "\<not> running (tasks (snd (startJob P i u sc c (run P cs initial))) ! h)"
    if "activeJobs (run P cs initial) i = Some h"
    using c that by (rule replaced_timer_stopped)
  from one trk cnt' reg dom cnt old show ?thesis by blast
qed

theorem one_live_timer_per_id_witness:
  "list_all (parses (sample_platform None))
     [Start ''a'' (Some ''https://example.com/a'') ''* * * * *'' None,
      Start ''a'' (Some ''https://example.com/a'') ''*/5 * * * *'' (Some ''s3cret'')]
   \<and> activeJobs (run (sample_platform None)
        [Start ''a'' (Some ''https://example.com/a'') ''* * * * *'' None,
         Start ''a'' (Some ''https://example.com/a'') ''*/5 * * * *'' (Some ''s3cret'')] initial) ''a'' = Some 1
   \<and> armed (run (sample_platform None)
        [Start ''a'' (Some ''https://example.com/a'') ''* * * * *'' None,
         Start ''a'' (Some ''https://example.com/a'') ''*/5 * * * *'' (Some ''s3cret'')] initial) ''a''
       = Some (Some ''https://example.com/a'', ''*/5 * * * *'', Some ''s3cret'')
   \<and> length (live_timers (run (sample_platform None)
        [Start ''a'' (Some ''https://example.com/a'') ''* * * * *'' None,
         Start ''a'' (Some ''https://example.com/a'') ''*/5 * * * *'' (Some ''s3cret'')] initial) ''a'') = 1
   \<and> \<not> running (tasks (snd (startJob (sample_platform None) ''a''
        (Some ''https://example.com/a'') (Some ''0 * * * *'') None
        (run (sample_platform None)
           [Start ''a'' (Some ''https://example.com/a'') ''* * * * *'' None,
            Start ''a'' (Some ''https://example.com/a'') ''*/5 * * * *'' (Some ''s3cret'')]
           initial))) ! 1)"
proof -
  let ?cs = "[Start ''a'' (Some ''https://example.com/a'') ''* * * * *'' None,
      Start ''a'' (Some ''https://example.com/a'') ''*/5 * * * *'' (Some ''s3cret'')]"
  have p: "list_all (parses (sample_platform None)) ?cs"
    by (simp add: sample_platform_def sample_validate_def)
  have a: "activeJobs (run (sample_platform None) ?cs initial) ''a'' = Some 1"
    by (simp add: run_def startJob_def stop_def initial_def sample_platform_def
        sample_validate_def Let_def)
  from one_live_timer_per_id [of "sample_platform None" ?cs "''a''" 1
      "Some ''https://example.com/a''" "Some ''0 * * * *''" None] p a
  show ?thesis by simp
qed

text \<open>
  The claim as stated (after any sequence the map holds exactly one timer per
  registered id, armed with the most recently supplied schedule) fails when the schedule
  supplied last does not parse: after a start of job \<open>a\<close> and a second start of \<open>a\<close>
  with the three-field expression, \<open>a\<close> is still registered, with its first task, and
  has no live timer and is armed with nothing.
\<close>

theorem one_live_timer_counterexample:
  "activeJobs (run (sample_platform None)
        [Start ''a'' (Some ''https://example.com/a'') ''* * * * *'' None,
         Start ''a'' (Some ''https://example.com/a'') ''* * *'' None] initial) ''a'' = Some 0
   \<and> live_timers (run (sample_platform None)
        [Start ''a'' (Some ''https://example.com/a'') ''* * * * *'' None,
         Start ''a'' (Some ''https://example.com/a'') ''* * *'' None] initial) ''a'' = []
   \<and> armed (run (sample_platform None)
        [Start ''a'' (Some ''https://example.com/a'') ''* * * * *'' None,
         Start ''a'' (Some ''https://example.com/a'') ''* * *'' None] initial) ''a'' = None"
  by (simp add: run_def startJob_def stop_def initial_def sample_platform_def
      sample_validate_def live_timers_def armed_def Let_def)

section \<open>The routes that change the store\<close>

lemma startJob_invalid:
  "(\<forall>e. sc = Some e \<longrightarrow> \<not> cron_validate P e) \<Longrightarrow>
   startJob P i u sc c s =
     (Some InvalidPattern, case activeJobs s i of None \<Rightarrow> s | Some h \<Rightarrow> stop h s)"
  by (cases sc) (simp_all add: startJob_def Let_def)

lemma serve_cases:
  "serve P r now req s = handler P r now req s \<or> snd (serve P r now req s) = s"
  by (simp add: serve_def apiKeyMiddleware_def Let_def)

lemma stop_frame [simp]:
  "jobsFile (stop h s) = jobsFile s" "dataDir (stop h s) = dataDir s"
  "fetched (stop h s) = fetched s" "console (stop h s) = console s"
  by (simp_all add: stop_def)

lemma startJob_frame:
  "jobsFile (snd (startJob P i u sc c s)) = jobsFile s"
  "dataDir (snd (startJob P i u sc c s)) = dataDir s"
  "fetched (snd (startJob P i u sc c s)) = fetched s"
  "console (snd (startJob P i u sc c s)) = console s"
  by (simp_all add: startJob_def Let_def split: option.splits)

lemma stopJob_frame:
  "jobsFile (stopJob i s) = jobsFile s" "dataDir (stopJob i s) = dataDir s"
  "fetched (stopJob i s) = fetched s" "console (stopJob i s) = console s"
  by (simp_all add: stopJob_def split: option.splits)

lemma post_checks_rejects:
  assumes "\<not> truthy (obj_get (body req) ''id'') \<or> \<not> truthy (obj_get (body req) ''url'')
     \<or> \<not> truthy (obj_get (body req) ''schedule'')
     \<or> (\<exists>e. obj_get (body req) ''schedule'' = Some e \<and> \<not> cron_validate P e)
     \<or> (\<exists>u. obj_get (body req) ''url'' = Some u \<and> \<not> url_parses P u)"
  shows "\<exists>res \<in> {error_response 400 ''Missing required fields'',
            error_response 400 ''Invalid cron schedule'',
            error_response 400 ''Invalid URL format''}. post_checks P req = Inl res"
proof (cases "obj_get (body req) ''id''")
  case None
  then show ?thesis by (simp add: post_checks_def)
next
  case i: (Some i)
  show ?thesis
  proof (cases "obj_get (body req) ''url''")
    case None
    with i show ?thesis by (simp add: post_checks_def)
  next
    case u: (Some u)
    show ?thesis
    proof (cases "obj_get (body req) ''schedule''")
      case None
      with i u show ?thesis by (simp add: post_checks_def)
    next
      case (Some e)
      with i u assms show ?thesis by (auto simp: post_checks_def Let_def)
    qed
  qed
qed

lemma post_rejects:
  assumes "\<not> truthy (obj_get (body req) ''id'') \<or> \<not> truthy (obj_get (body req) ''url'')
     \<or> \<not> truthy (obj_get (body req) ''schedule'')
     \<or> (\<exists>e. obj_get (body req) ''schedule'' = Some e \<and> \<not> cron_validate P e)
     \<or> (\<exists>u. obj_get (body req) ''url'' = Some u \<and> \<not> url_parses P u)"
  shows "fst (post_jobs_handler P now req s) \<in>
           {error_response 400 ''Missing required fields'',
            error_response 400 ''Invalid cron schedule'',
            error_response 400 ''Invalid URL format''}
         \<and> snd (post_jobs_handler P now req s) = s"
proof -
  from post_checks_rejects [OF assms] obtain res where
    "res \<in> {error_response 400 ''Missing required fields'',
            error_response 400 ''Invalid cron schedule'',
            error_response 400 ''Invalid URL format''}" "post_checks P req = Inl res"
    by blast
  then show ?thesis by (simp add: post_jobs_handler_def)
qed

lemma post_checks_accepts:
  assumes "obj_get (body req) ''id'' = Some i" "i \<noteq> []"
    and "obj_get (body req) ''url'' = Some u" "u \<noteq> []" "url_parses P u"
    and "obj_get (body req) ''schedule'' = Some e" "e \<noteq> []" "cron_validate P e"
  shows "post_checks P req = Inr (i, u, e, obj_get (body req) ''cronSecret'')"
  using assms by (simp add: post_checks_def)

lemma post_store_written:
  assumes "dataDir s" and "i \<noteq> ''__proto__''"
  shows "fst (post_store now (i, u, e, c) (loadJobs s0) s) = None"
    and "loadJobs (snd (post_store now (i, u, e, c) (loadJobs s0) s))
           = obj_set (loadJobs s0) i (job_record u e c now)"
proof -
  have wf: "wf_jobs (obj_set (loadJobs s0) i (job_record u e c now))"
    using wf_jobs_loadJobs by (rule wf_jobs_obj_set) (rule distinct_job_record)
  show "fst (post_store now (i, u, e, c) (loadJobs s0) s) = None"
    using assms by (simp add: saveJobs_dataDir)
  show "loadJobs (snd (post_store now (i, u, e, c) (loadJobs s0) s))
           = obj_set (loadJobs s0) i (job_record u e c now)"
    using assms wf by (simp add: js_assign_other loadJobs_saveJobs)
qed

lemma post_start_parses:
  assumes "cron_validate P e"
  shows "post_start P now (i, u, e, c) js s =
     (\<lparr>status = 200,
       payload = JObject
         [(''message'', JString ''Job added successfully''),
          (''job'', JObject
             [(''id'', JString i), (''url'', JString u), (''schedule'', JString e),
              (''createdAt'', JString now), (''createdBy'', JString ''JIMEX-X'')])]\<rparr>,
      snd (startJob P i (Some u) (Some e) c s))"
proof -
  have "created_fields (js_assigned js i (job_record u e c now))
      = [(''createdAt'', JString now), (''createdBy'', JString ''JIMEX-X'')]"
    by (cases c) (simp_all add: js_assigned_eq created_fields_def job_record_def)
  moreover obtain s' where "startJob P i (Some u) (Some e) c s = (None, s')"
    using startJob_parses [OF assms] by blast
  ultimately show ?thesis by simp
qed

lemma post_accepts:
  assumes "obj_get (body req) ''id'' = Some i" "i \<noteq> []"
    and "obj_get (body req) ''url'' = Some u" "u \<noteq> []" "url_parses P u"
    and "obj_get (body req) ''schedule'' = Some e" "e \<noteq> []" "cron_validate P e"
    and "dataDir s"
  shows "post_jobs_handler P now req s =
     (\<lparr>status = 200,
       payload = JObject
         [(''message'', JString ''Job added successfully''),
          (''job'', JObject
             [(''id'', JString i), (''url'', JString u), (''schedule'', JString e),
              (''createdAt'', JString now), (''createdBy'', JString ''JIMEX-X'')])]\<rparr>,
      snd (startJob P i (Some u) (Some e) (obj_get (body req) ''cronSecret'')
             (snd (saveJobs
                (js_assign (loadJobs s) i
                   (job_record u e (obj_get (body req) ''cronSecret'') now)) s))))"
  unfolding post_jobs_handler_def post_checks_accepts [OF assms(1-8)] Let_def
  using assms(9) by (simp add: saveJobs_dataDir post_start_parses [OF assms(8)] del: post_start.simps)

lemma post_write_fails:
  assumes "obj_get (body req) ''id'' = Some i" "i \<noteq> []"
    and "obj_get (body req) ''url'' = Some u" "u \<noteq> []" "url_parses P u"
    and "obj_get (body req) ''schedule'' = Some e" "e \<noteq> []" "cron_validate P e"
    and "\<not> dataDir s"
  shows "post_jobs_handler P now req s = (error_response 500 (message WriteFailed), s)"
  using assms
  by (simp add: post_jobs_handler_def post_checks_accepts saveJobs_no_dataDir Let_def)

text \<open>
  C4, as amended. A POST /jobs request whose id, url or schedule is missing (absent or
  empty), whose schedule fails cron validation or whose url does not parse is answered
  with one of the three 400 validation errors, and the state (the persisted job map and
  the tasks) is what it was, at the handler and at the route. When the three validations
  pass, the handler goes on with the id, url, schedule and secret of the request. For an
  id other than \<open>__proto__\<close> and a file that can be written, the persisted map is then
  the map the handler loaded with the record stored under the id, whatever ran between
  the load and the write; when the file cannot be written nothing is persisted, and the
  handler answers 500 without calling \<open>startJob\<close>. After the write \<open>startJob\<close> is
  called on the state of that moment and returns, the id is armed with the url, schedule
  and secret of the request, and the answer is 200. Run with nothing in between, the
  handler does all of this on the state it was given.
\<close>

theorem post_jobs_validation:
  "(\<not> truthy (obj_get (body req) ''id'') \<or> \<not> truthy (obj_get (body req) ''url'')
      \<or> \<not> truthy (obj_get (body req) ''schedule'')
      \<or> (\<exists>e. obj_get (body req) ''schedule'' = Some e \<and> \<not> cron_validate P e)
      \<or> (\<exists>u. obj_get (body req) ''url'' = Some u \<and> \<not> url_parses P u)
    \<longrightarrow> fst (post_jobs_handler P now req s) \<in>
           {error_response 400 ''Missing required fields'',
            error_response 400 ''Invalid cron schedule'',
            error_response 400 ''Invalid URL format''}
        \<and> snd (post_jobs_handler P now req s) = s
        \<and> snd (serve P POST_jobs now req s) = s)
   \<and> (obj_get (body req) ''id'' = Some i \<and> i \<noteq> []
        \<and> obj_get (body req) ''url'' = Some u \<and> u \<noteq> [] \<and> url_parses P u
        \<and> obj_get (body req) ''schedule'' = Some e \<and> e \<noteq> [] \<and> cron_validate P e
        \<and> obj_get (body req) ''cronSecret'' = c
    \<longrightarrow> post_checks P req = Inr (i, u, e, c)
        \<and> (i \<noteq> ''__proto__'' \<and> dataDir s1 \<longrightarrow>
             fst (post_store now (i, u, e, c) (loadJobs s0) s1) = None
             \<and> loadJobs (snd (post_store now (i, u, e, c) (loadJobs s0) s1))
                 = obj_set (loadJobs s0) i (job_record u e c now))
        \<and> (\<not> dataDir s1 \<longrightarrow> post_store now (i, u, e, c) js s1 = (Some WriteFailed, s1))
        \<and> status (fst (post_start P now (i, u, e, c) js s2)) = 200
        \<and> startJob P i (Some u) (Some e) c s2 = (None, snd (post_start P now (i, u, e, c) js s2))
        \<and> armed (snd (post_start P now (i, u, e, c) js s2)) i = Some (Some u, e, c)
        \<and> (i \<noteq> ''__proto__'' \<and> dataDir s \<longrightarrow>
             status (fst (post_jobs_handler P now req s)) = 200
             \<and> loadJobs (snd (post_jobs_handler P now req s))
                 = obj_set (loadJobs s) i (job_record u e c now)
             \<and> startJob P i (Some u) (Some e) c
                  (snd (saveJobs (obj_set (loadJobs s) i (job_record u e c now)) s))
                 = (None, snd (post_jobs_handler P now req s))
             \<and> armed (snd (post_jobs_handler P now req s)) i = Some (Some u, e, c))
        \<and> (\<not> dataDir s \<longrightarrow>
             post_jobs_handler P now req s = (error_response 500 (message WriteFailed), s)))"
proof (intro conjI impI)
  assume bad: "\<not> truthy (obj_get (body req) ''id'') \<or> \<not> truthy (obj_get (body req) ''url'')
      \<or> \<not> truthy (obj_get (body req) ''schedule'')
      \<or> (\<exists>e. obj_get (body req) ''schedule'' = Some e \<and> \<not> cron_validate P e)
      \<or> (\<exists>u. obj_get (body req) ''url'' = Some u \<and> \<not> url_parses P u)"
  show "fst (post_jobs_handler P now req s) \<in>
           {error_response 400 ''Missing required fields'',
            error_response 400 ''Invalid cron schedule'',
            error_response 400 ''Invalid URL format''}"
    using post_rejects [OF bad] by blast
  show same: "snd (post_jobs_handler P now req s) = s"
    using post_rejects [OF bad] by blast
  show "snd (serve P POST_jobs now req s) = s"
    using serve_cases [of P POST_jobs now req s] same by (auto simp: handler_def)
next
  assume good: "obj_get (body req) ''id'' = Some i \<and> i \<noteq> []
        \<and> obj_get (body req) ''url'' = Some u \<and> u \<noteq> [] \<and> url_parses P u
        \<and> obj_get (body req) ''schedule'' = Some e \<and> e \<noteq> [] \<and> cron_validate P e
        \<and> obj_get (body req) ''cronSecret'' = c"
  then have f: "obj_get (body req) ''id'' = Some i" "i \<noteq> []"
      "obj_get (body req) ''url'' = Some u" "u \<noteq> []" "url_parses P u"
      "obj_get (body req) ''schedule'' = Some e" "e \<noteq> []"
    and v: "cron_validate P e" and c: "obj_get (body req) ''cronSecret'' = c"
    by simp_all
  show "post_checks P req = Inr (i, u, e, c)"
    using post_checks_accepts [OF f v] c by simp
  show "status (fst (post_start P now (i, u, e, c) js s2)) = 200"
    unfolding post_start_parses [OF v] by simp
  show "startJob P i (Some u) (Some e) c s2 = (None, snd (post_start P now (i, u, e, c) js s2))"
    unfolding post_start_parses [OF v] by (simp add: startJob_parses [OF v])
  show "armed (snd (post_start P now (i, u, e, c) js s2)) i = Some (Some u, e, c)"
    unfolding post_start_parses [OF v] by (simp add: armed_startJob_same [OF v])
  show "post_store now (i, u, e, c) js s1 = (Some WriteFailed, s1)" if "\<not> dataDir s1"
    using that by (simp add: saveJobs_no_dataDir)
  show "post_jobs_handler P now req s = (error_response 500 (message WriteFailed), s)"
    if "\<not> dataDir s"
    using post_write_fails [OF f v that] by simp
  {
    assume w: "i \<noteq> ''__proto__'' \<and> dataDir s1"
    show "fst (post_store now (i, u, e, c) (loadJobs s0) s1) = None"
      using w by (intro post_store_written) simp_all
    show "loadJobs (snd (post_store now (i, u, e, c) (loadJobs s0) s1))
                 = obj_set (loadJobs s0) i (job_record u e c now)"
      using w by (intro post_store_written) simp_all
  }
  {
    assume w: "i \<noteq> ''__proto__'' \<and> dataDir s"
    let ?js = "obj_set (loadJobs s) i (job_record u e c now)"
    have h: "post_jobs_handler P now req s =
       (\<lparr>status = 200,
         payload = JObject
           [(''message'', JString ''Job added successfully''),
            (''job'', JObject
               [(''id'', JString i), (''url'', JString u), (''schedule'', JString e),
                (''createdAt'', JString now), (''createdBy'', JString ''JIMEX-X'')])]\<rparr>,
        snd (startJob P i (Some u) (Some e) c (snd (saveJobs ?js s))))"
      using post_accepts [OF f v, of s now] w c by (simp add: js_assign_other)
    have wf: "wf_jobs ?js"
      using wf_jobs_loadJobs by (rule wf_jobs_obj_set) (rule distinct_job_record)
    show "status (fst (post_jobs_handler P now req s)) = 200"
      unfolding h by simp
    show "loadJobs (snd (post_jobs_handler P now req s)) = ?js"
      unfolding h using w wf
      by (simp add: loadJobs_cong [OF startJob_frame(1)] loadJobs_saveJobs)
    show "startJob P i (Some u) (Some e) c (snd (saveJobs ?js s))
                 = (None, snd (post_jobs_handler P now req s))"
      unfolding h by (simp add: startJob_parses [OF v])
    show "armed (snd (post_jobs_handler P now req s)) i = Some (Some u, e, c)"
      unfolding h using v by (simp add: armed_startJob_same)
  }
qed

theorem post_jobs_validation_witness:
  "post_jobs_handler (sample_platform (Some ''k1'')) ''2024-01-01T00:00:00.000Z''
      (sample_request [(''x-api-key'', ''k1'')]
         [(''id'', ''a''), (''url'', ''https://example.com/a''), (''schedule'', ''99 * * * *'')] [])
      (snd (initializeJobs (sample_platform (Some ''k1'')) initial))
     = (error_response 400 ''Invalid cron schedule'',
        snd (initializeJobs (sample_platform (Some ''k1'')) initial))
   \<and> loadJobs (snd (post_jobs_handler (sample_platform (Some ''k1'')) ''2024-01-01T00:00:00.000Z''
         (sample_request [(''x-api-key'', ''k1'')]
            [(''id'', ''a''), (''url'', ''https://example.com/a''), (''schedule'', ''*/5 * * * *''),
             (''cronSecret'', ''s3cret'')] [])
         (snd (initializeJobs (sample_platform (Some ''k1'')) initial))))
       = [(''a'', [(''url'', ''https://example.com/a''), (''schedule'', ''*/5 * * * *''),
                  (''cronSecret'', ''s3cret''), (''createdAt'', ''2024-01-01T00:00:00.000Z''),
                  (''createdBy'', ''JIMEX-X'')])]
   \<and> armed (snd (post_jobs_handler (sample_platform (Some ''k1'')) ''2024-01-01T00:00:00.000Z''
         (sample_request [(''x-api-key'', ''k1'')]
            [(''id'', ''a''), (''url'', ''https://example.com/a''), (''schedule'', ''*/5 * * * *''),
             (''cronSecret'', ''s3cret'')] [])
         (snd (initializeJobs (sample_platform (Some ''k1'')) initial)))) ''a''
       = Some (Some ''https://example.com/a'', ''*/5 * * * *'', Some ''s3cret'')
   \<and> post_jobs_handler (sample_platform (Some ''k1'')) ''2024-01-01T00:00:00.000Z''
         (sample_request [(''x-api-key'', ''k1'')]
            [(''id'', ''a''), (''url'', ''https://example.com/a''), (''schedule'', ''*/5 * * * *''),
             (''cronSecret'', ''s3cret'')] []) initial
       = (error_response 500 ''ENOENT: no such file or directory'', initial)"
proof -
  let ?P = "sample_platform (Some ''k1'')"
  let ?now = "''2024-01-01T00:00:00.000Z''"
  let ?bad = "sample_request [(''x-api-key'', ''k1'')]
         [(''id'', ''a''), (''url'', ''https://example.com/a''), (''schedule'', ''99 * * * *'')] []"
  let ?good = "sample_request [(''x-api-key'', ''k1'')]
            [(''id'', ''a''), (''url'', ''https://example.com/a''), (''schedule'', ''*/5 * * * *''),
             (''cronSecret'', ''s3cret'')] []"
  let ?s = "snd (initializeJobs ?P initial)"
  have s: "?s = initial\<lparr>dataDir := True\<rparr>"
    by (simp add: initializeJobs_def ensureDataDirectory_def loadJobs_def initial_def)
  have b: "\<exists>e. obj_get (body ?bad) ''schedule'' = Some e \<and> \<not> cron_validate ?P e"
    by (simp add: sample_request_def sample_platform_def sample_validate_def)
  have g: "obj_get (body ?good) ''id'' = Some ''a'' \<and> ''a'' \<noteq> []
        \<and> obj_get (body ?good) ''url'' = Some ''https://example.com/a''
        \<and> ''https://example.com/a'' \<noteq> [] \<and> url_parses ?P ''https://example.com/a''
        \<and> obj_get (body ?good) ''schedule'' = Some ''*/5 * * * *'' \<and> ''*/5 * * * *'' \<noteq> []
        \<and> cron_validate ?P ''*/5 * * * *''
        \<and> obj_get (body ?good) ''cronSecret'' = Some ''s3cret''"
    by (simp add: sample_request_def sample_platform_def sample_validate_def
        sample_url_parses_def)
  have d: "''a'' \<noteq> ''__proto__'' \<and> dataDir ?s"
    unfolding s by (simp add: initial_def)
  have n: "\<not> dataDir initial"
    by (simp add: initial_def)
  have l: "loadJobs ?s = []"
    unfolding s by (simp add: loadJobs_def initial_def)
  have f: "fst (post_jobs_handler ?P ?now ?bad ?s) = error_response 400 ''Invalid cron schedule''"
    by (simp add: post_jobs_handler_def post_checks_def sample_request_def sample_platform_def
        sample_validate_def)
  from post_jobs_validation [where req = ?bad and P = ?P and now = ?now and s = ?s] b
  have 1: "snd (post_jobs_handler ?P ?now ?bad ?s) = ?s" by blast
  from post_jobs_validation [where req = ?good and P = ?P and now = ?now and s = ?s
      and i = "''a''" and u = "''https://example.com/a''" and e = "''*/5 * * * *''"
      and c = "Some ''s3cret''"] g d
  have 2: "loadJobs (snd (post_jobs_handler ?P ?now ?good ?s))
            = obj_set (loadJobs ?s) ''a''
                (job_record ''https://example.com/a'' ''*/5 * * * *'' (Some ''s3cret'') ?now)"
    and 3: "armed (snd (post_jobs_handler ?P ?now ?good ?s)) ''a''
            = Some (Some ''https://example.com/a'', ''*/5 * * * *'', Some ''s3cret'')"
    by blast+
  from post_jobs_validation [where req = ?good and P = ?P and now = ?now and s = initial
      and i = "''a''" and u = "''https://example.com/a''" and e = "''*/5 * * * *''"
      and c = "Some ''s3cret''"] g n
  have 5: "post_jobs_handler ?P ?now ?good initial
            = (error_response 500 (message WriteFailed), initial)"
    by blast
  have 4: "post_jobs_handler ?P ?now ?bad ?s = (error_response 400 ''Invalid cron schedule'', ?s)"
    using f 1 by (simp add: prod_eq_iff)
  show ?thesis
    using 2 3 4 5 unfolding l by (simp add: job_record_def)
qed

text \<open>
  The claim as stated fails where the handler's catch answers for a failed write: a
  request that passes the three validations, served before the data directory exists,
  is answered 500, and its record is neither persisted nor scheduled. It also fails
  for the id \<open>__proto__\<close>: the request passes the validations and is answered 200 with
  its timer armed, and the persisted map holds no record.
\<close>

theorem post_jobs_validation_counterexample:
  "post_checks (sample_platform (Some ''k1''))
      (sample_request [(''x-api-key'', ''k1'')]
         [(''id'', ''a''), (''url'', ''https://example.com/a''), (''schedule'', ''* * * * *'')] [])
     = Inr (''a'', ''https://example.com/a'', ''* * * * *'', None)
   \<and> post_jobs_handler (sample_platform (Some ''k1'')) ''2024-01-01T00:00:00.000Z''
        (sample_request [(''x-api-key'', ''k1'')]
           [(''id'', ''a''), (''url'', ''https://example.com/a''), (''schedule'', ''* * * * *'')] [])
        initial
     = (error_response 500 ''ENOENT: no such file or directory'', initial)
   \<and> loadJobs initial = [] \<and> armed initial ''a'' = None
   \<and> post_checks (sample_platform (Some ''k1''))
      (sample_request [(''x-api-key'', ''k1'')]
         [(''id'', ''__proto__''), (''url'', ''https://example.com/a''),
          (''schedule'', ''* * * * *'')] [])
     = Inr (''__proto__'', ''https://example.com/a'', ''* * * * *'', None)
   \<and> status (fst (post_jobs_handler (sample_platform (Some ''k1'')) ''2024-01-01T00:00:00.000Z''
        (sample_request [(''x-api-key'', ''k1'')]
           [(''id'', ''__proto__''), (''url'', ''https://example.com/a''),
            (''schedule'', ''* * * * *'')] [])
        (startup (sample_platform (Some ''k1''))))) = 200
   \<and> loadJobs (snd (post_jobs_handler (sample_platform (Some ''k1'')) ''2024-01-01T00:00:00.000Z''
        (sample_request [(''x-api-key'', ''k1'')]
           [(''id'', ''__proto__''), (''url'', ''https://example.com/a''),
            (''schedule'', ''* * * * *'')] [])
        (startup (sample_platform (Some ''k1''))))) = []"
proof -
  let ?P = "sample_platform (Some ''k1'')"
  let ?now = "''2024-01-01T00:00:00.000Z''"
  let ?a = "sample_request [(''x-api-key'', ''k1'')]
         [(''id'', ''a''), (''url'', ''https://example.com/a''), (''schedule'', ''* * * * *'')] []"
  let ?p = "sample_request [(''x-api-key'', ''k1'')]
         [(''id'', ''__proto__''), (''url'', ''https://example.com/a''),
          (''schedule'', ''* * * * *'')] []"
  have s: "startup ?P = initial\<lparr>dataDir := True\<rparr>"
    by (simp add: startup_def initializeJobs_def ensureDataDirectory_def loadJobs_def initial_def)
  have a: "post_checks ?P ?a = Inr (''a'', ''https://example.com/a'', ''* * * * *'', None)"
    by (simp add: post_checks_def sample_request_def sample_platform_def sample_validate_def
        sample_url_parses_def)
  have p: "post_checks ?P ?p = Inr (''__proto__'', ''https://example.com/a'', ''* * * * *'', None)"
    by (simp add: post_checks_def sample_request_def sample_platform_def sample_validate_def
        sample_url_parses_def)
  have l: "loadJobs initial = []" "loadJobs (initial\<lparr>dataDir := True\<rparr>) = []"
    "loadJobs \<lparr>dataDir = True, jobsFile = None, tasks = [], activeJobs = Map.empty,
       fetched = [], console = []\<rparr> = []"
    by (simp_all add: loadJobs_def initial_def)
  have v: "cron_validate ?P ''* * * * *''"
    by (simp add: sample_platform_def sample_validate_def)
  have 1: "post_jobs_handler ?P ?now ?a initial
     = (error_response 500 ''ENOENT: no such file or directory'', initial)"
    unfolding post_jobs_handler_def a by (simp add: saveJobs_def initial_def)
  have w: "wf_jobs []"
    by (simp add: wf_jobs_def obj_keys_def)
  have 2: "post_jobs_handler ?P ?now ?p (startup ?P)
     = post_start ?P ?now (''__proto__'', ''https://example.com/a'', ''* * * * *'', None) []
         (initial\<lparr>dataDir := True, jobsFile := Some (JSON_stringify [])\<rparr>)"
    unfolding post_jobs_handler_def p s
    by (simp add: l saveJobs_def js_assign_def initial_def del: post_start.simps)
  have 3: "status (fst (post_jobs_handler ?P ?now ?p (startup ?P))) = 200"
    unfolding 2 post_start_parses [OF v] by simp
  have 4: "loadJobs (snd (post_jobs_handler ?P ?now ?p (startup ?P))) = []"
    unfolding 2 post_start_parses [OF v]
    by (simp add: loadJobs_cong [OF startJob_frame(1)] loadJobs_written [OF w])
  have 5: "armed initial ''a'' = None"
    by (simp add: armed_def initial_def)
  show ?thesis
    using a p 1 3 4 5 l(1) by simp
qed

lemma fst_startJob:
  "fst (startJob P i u sc c s) =
     (case sc of
        None \<Rightarrow> Some InvalidPattern
      | Some e \<Rightarrow> if cron_validate P e then None else Some InvalidPattern)"
  by (simp add: startJob_def Let_def split: option.splits)

lemma fst_forEach_startJob:
  "fst (forEach_startJob P js s) = (if replayable P js then None else Some InvalidPattern)"
proof (induction js arbitrary: s)
  case Nil
  then show ?case by (simp add: replayable_def)
next
  case (Cons e es)
  obtain r s' where st: "startJob P (fst e) (obj_get (snd e) ''url'') (obj_get (snd e) ''schedule'')
             (obj_get (snd e) ''cronSecret'') s = (r, s')"
    by (cases "startJob P (fst e) (obj_get (snd e) ''url'') (obj_get (snd e) ''schedule'')
             (obj_get (snd e) ''cronSecret'') s")
  have r: "r = (case obj_get (snd e) ''schedule'' of
        None \<Rightarrow> Some InvalidPattern
      | Some x \<Rightarrow> if cron_validate P x then None else Some InvalidPattern)"
    using fst_startJob [of P "fst e" "obj_get (snd e) ''url''" "obj_get (snd e) ''schedule''"
        "obj_get (snd e) ''cronSecret''" s] st by simp
  show ?case
    using Cons.IH [of s'] st r
    by (auto simp: replayable_def split: option.splits)
qed

lemma loadJobs_ensureDataDirectory: "loadJobs (ensureDataDirectory s) = loadJobs s"
  by (simp add: ensureDataDirectory_def loadJobs_def)

lemma fst_initializeJobs:
  "fst (initializeJobs P s) = (if replayable P (loadJobs s) then None else Some InvalidPattern)"
  by (simp add: initializeJobs_def Let_def fst_forEach_startJob loadJobs_ensureDataDirectory)

text \<open>
  C5, as amended. A \<open>startJob\<close> call whose schedule expression fails to parse is
  reported to the caller: it throws, registers nothing and makes no task, and
  \<open>initializeJobs\<close> passes the throw on. POST /jobs validates the schedule before it
  calls \<open>startJob\<close>: a request whose schedule fails validation is answered 400 and
  leaves the state, and with it every running timer, untouched.
\<close>

theorem parse_failure_reported:
  "((\<forall>e. sc = Some e \<longrightarrow> \<not> cron_validate P e) \<longrightarrow>
      fst (startJob P i u sc c s) = Some InvalidPattern
      \<and> activeJobs (snd (startJob P i u sc c s)) = activeJobs s
      \<and> length (tasks (snd (startJob P i u sc c s))) = length (tasks s))
   \<and> (\<not> replayable P (loadJobs s) \<longrightarrow> fst (initializeJobs P s) = Some InvalidPattern)
   \<and> (obj_get (body req) ''schedule'' = Some x \<and> \<not> cron_validate P x \<longrightarrow>
        status (fst (post_jobs_handler P now req s)) = 400
        \<and> snd (post_jobs_handler P now req s) = s
        \<and> snd (serve P POST_jobs now req s) = s)"
proof (intro conjI impI)
  assume bad: "\<forall>e. sc = Some e \<longrightarrow> \<not> cron_validate P e"
  show "fst (startJob P i u sc c s) = Some InvalidPattern"
    by (simp add: startJob_invalid [OF bad])
  show "activeJobs (snd (startJob P i u sc c s)) = activeJobs s"
    by (simp add: startJob_invalid [OF bad] split: option.splits)
  show "length (tasks (snd (startJob P i u sc c s))) = length (tasks s)"
    by (simp add: startJob_invalid [OF bad] split: option.splits)
next
  assume "\<not> replayable P (loadJobs s)"
  then show "fst (initializeJobs P s) = Some InvalidPattern"
    by (simp add: fst_initializeJobs)
next
  assume bad: "obj_get (body req) ''schedule'' = Some x \<and> \<not> cron_validate P x"
  then have r: "fst (post_jobs_handler P now req s) \<in>
           {error_response 400 ''Missing required fields'',
            error_response 400 ''Invalid cron schedule'',
            error_response 400 ''Invalid URL format''}
         \<and> snd (post_jobs_handler P now req s) = s"
    by (intro post_rejects) blast
  then show "status (fst (post_jobs_handler P now req s)) = 400"
    by (auto simp: error_response_def)
  show same: "snd (post_jobs_handler P now req s) = s"
    using r by blast
  show "snd (serve P POST_jobs now req s) = s"
    using serve_cases [of P POST_jobs now req s] same by (auto simp: handler_def)
qed

theorem parse_failure_reported_witness:
  "startJob (sample_platform None) ''a'' (Some ''https://example.com/a'') (Some ''* * *'') None initial
     = (Some InvalidPattern, initial)
   \<and> snd (serve (sample_platform (Some ''k1'')) POST_jobs ''2024-01-01T00:00:00.000Z''
        (sample_request [(''x-api-key'', ''k1'')]
           [(''id'', ''a''), (''url'', ''https://example.com/a''), (''schedule'', ''* * *'')] [])
        (snd (startJob (sample_platform (Some ''k1'')) ''a'' (Some ''https://example.com/a'')
                (Some ''* * * * *'') None initial)))
     = snd (startJob (sample_platform (Some ''k1'')) ''a'' (Some ''https://example.com/a'')
                (Some ''* * * * *'') None initial)"
proof -
  have v: "\<not> sample_validate ''* * *''"
    by (simp add: sample_validate_def)
  have a: "\<forall>e. Some ''* * *'' = Some e \<longrightarrow> \<not> cron_validate (sample_platform None) e"
    using v by (simp add: sample_platform_def)
  have b: "obj_get (body (sample_request [(''x-api-key'', ''k1'')]
           [(''id'', ''a''), (''url'', ''https://example.com/a''), (''schedule'', ''* * *'')] []))
           ''schedule'' = Some ''* * *''
         \<and> \<not> cron_validate (sample_platform (Some ''k1'')) ''* * *''"
    using v by (simp add: sample_platform_def sample_request_def)
  have c: "snd (startJob (sample_platform None) ''a'' (Some ''https://example.com/a'')
       (Some ''* * *'') None initial) = initial"
    using v by (simp add: startJob_def sample_platform_def initial_def)
  from parse_failure_reported [of "Some ''* * *''" "sample_platform None" "''a''"
      "Some ''https://example.com/a''" None initial] a
  have 1: "fst (startJob (sample_platform None) ''a'' (Some ''https://example.com/a'')
       (Some ''* * *'') None initial) = Some InvalidPattern"
    by blast
  from parse_failure_reported [of _ "sample_platform (Some ''k1'')" _ _ _
      "snd (startJob (sample_platform (Some ''k1'')) ''a'' (Some ''https://example.com/a'')
                (Some ''* * * * *'') None initial)"
      "sample_request [(''x-api-key'', ''k1'')]
           [(''id'', ''a''), (''url'', ''https://example.com/a''), (''schedule'', ''* * *'')] []"
      "''* * *''" "''2024-01-01T00:00:00.000Z''"] b
  have 2: "snd (serve (sample_platform (Some ''k1'')) POST_jobs ''2024-01-01T00:00:00.000Z''
        (sample_request [(''x-api-key'', ''k1'')]
           [(''id'', ''a''), (''url'', ''https://example.com/a''), (''schedule'', ''* * *'')] [])
        (snd (startJob (sample_platform (Some ''k1'')) ''a'' (Some ''https://example.com/a'')
                (Some ''* * * * *'') None initial)))
     = snd (startJob (sample_platform (Some ''k1'')) ''a'' (Some ''https://example.com/a'')
                (Some ''* * * * *'') None initial)"
    by blast
  from 1 c have "startJob (sample_platform None) ''a'' (Some ''https://example.com/a'')
       (Some ''* * *'') None initial = (Some InvalidPattern, initial)"
    by (simp add: prod_eq_iff)
  with 2 show ?thesis by blast
qed

text \<open>
  The claim as stated fails for \<open>startJob\<close> itself, which stops the registered task
  before \<open>cron.schedule\<close> parses the expression: with the task of job \<open>a\<close> running,
  a call for \<open>a\<close> with the three-field expression throws and leaves that task stopped.
\<close>

theorem parse_failure_counterexample:
  "activeJobs (snd (startJob (sample_platform None) ''a'' (Some ''https://example.com/a'')
        (Some ''* * * * *'') None initial)) ''a'' = Some 0
   \<and> running (tasks (snd (startJob (sample_platform None) ''a'' (Some ''https://example.com/a'')
        (Some ''* * * * *'') None initial)) ! 0)
   \<and> \<not> cron_validate (sample_platform None) ''* * *''
   \<and> fst (startJob (sample_platform None) ''a'' (Some ''https://example.com/a'') (Some ''* * *'') None
        (snd (startJob (sample_platform None) ''a'' (Some ''https://example.com/a'')
           (Some ''* * * * *'') None initial))) = Some InvalidPattern
   \<and> \<not> running (tasks (snd (startJob (sample_platform None) ''a'' (Some ''https://example.com/a'')
        (Some ''* * *'') None
        (snd (startJob (sample_platform None) ''a'' (Some ''https://example.com/a'')
           (Some ''* * * * *'') None initial)))) ! 0)"
  by (simp add: startJob_def stop_def initial_def sample_platform_def sample_validate_def Let_def)

lemma stopJob_twice: "stopJob i (stopJob i s) = stopJob i s"
  by (simp add: stopJob_def split: option.splits)

lemma loadJobs_stopJob: "loadJobs (stopJob i s) = loadJobs s"
  by (simp add: loadJobs_def stopJob_frame)

text \<open>
  A DELETE for an id that is neither a key of the persisted map nor a name that every
  object inherits is answered 404 and leaves the state as it was.
\<close>

lemma delete_unknown_id:
  "obj_get (loadJobs s) (param_id req) = None \<Longrightarrow> param_id req \<notin> set proto_names \<Longrightarrow>
   delete_jobs_handler req s = (error_response 404 ''Job not found'', s)"
  by (simp add: delete_jobs_handler_def delete_job_def js_truthy_def Let_def)

text \<open>
  C3. The DELETE handler tests \<open>jobs[id]\<close>, which also finds what the map inherits.
  After a POST for the id \<open>__proto__\<close> the persisted map holds no record under that
  id, and a timer is armed for it. A DELETE for \<open>__proto__\<close> is then answered 200, not
  404, and it stops and forgets that timer: the id is absent from the persisted map and
  the active-timer set has changed. A DELETE for \<open>constructor\<close>, sent when nothing is
  stored, is answered 200 as well.
\<close>

theorem delete_inherited_name:
  "obj_get (loadJobs (snd (serve (sample_platform (Some ''k1'')) POST_jobs ''2024-01-01T00:00:00.000Z''
        (sample_request [(''x-api-key'', ''k1'')]
           [(''id'', ''__proto__''), (''url'', ''https://example.com/a''),
            (''schedule'', ''* * * * *'')] [])
        (startup (sample_platform (Some ''k1'')))))) ''__proto__'' = None
   \<and> armed (snd (serve (sample_platform (Some ''k1'')) POST_jobs ''2024-01-01T00:00:00.000Z''
        (sample_request [(''x-api-key'', ''k1'')]
           [(''id'', ''__proto__''), (''url'', ''https://example.com/a''),
            (''schedule'', ''* * * * *'')] [])
        (startup (sample_platform (Some ''k1''))))) ''__proto__''
       = Some (Some ''https://example.com/a'', ''* * * * *'', None)
   \<and> live_timers (snd (serve (sample_platform (Some ''k1'')) POST_jobs ''2024-01-01T00:00:00.000Z''
        (sample_request [(''x-api-key'', ''k1'')]
           [(''id'', ''__proto__''), (''url'', ''https://example.com/a''),
            (''schedule'', ''* * * * *'')] [])
        (startup (sample_platform (Some ''k1''))))) ''__proto__'' = [0]
   \<and> fst (serve (sample_platform (Some ''k1'')) DELETE_jobs ''2024-01-02T00:00:00.000Z''
        (sample_request [(''x-api-key'', ''k1'')] [] ''__proto__'')
        (snd (serve (sample_platform (Some ''k1'')) POST_jobs ''2024-01-01T00:00:00.000Z''
          (sample_request [(''x-api-key'', ''k1'')]
             [(''id'', ''__proto__''), (''url'', ''https://example.com/a''),
              (''schedule'', ''* * * * *'')] [])
          (startup (sample_platform (Some ''k1''))))))
       = \<lparr>status = 200, payload = JObject [(''message'', JString ''Job deleted successfully'')]\<rparr>
   \<and> armed (snd (serve (sample_platform (Some ''k1'')) DELETE_jobs ''2024-01-02T00:00:00.000Z''
        (sample_request [(''x-api-key'', ''k1'')] [] ''__proto__'')
        (snd (serve (sample_platform (Some ''k1'')) POST_jobs ''2024-01-01T00:00:00.000Z''
          (sample_request [(''x-api-key'', ''k1'')]
             [(''id'', ''__proto__''), (''url'', ''https://example.com/a''),
              (''schedule'', ''* * * * *'')] [])
          (startup (sample_platform (Some ''k1''))))))) ''__proto__'' = None
   \<and> live_timers (snd (serve (sample_platform (Some ''k1'')) DELETE_jobs ''2024-01-02T00:00:00.000Z''
        (sample_request [(''x-api-key'', ''k1'')] [] ''__proto__'')
        (snd (serve (sample_platform (Some ''k1'')) POST_jobs ''2024-01-01T00:00:00.000Z''
          (sample_request [(''x-api-key'', ''k1'')]
             [(''id'', ''__proto__''), (''url'', ''https://example.com/a''),
              (''schedule'', ''* * * * *'')] [])
          (startup (sample_platform (Some ''k1''))))))) ''__proto__'' = []
   \<and> obj_get (loadJobs (startup (sample_platform (Some ''k1'')))) ''constructor'' = None
   \<and> fst (serve (sample_platform (Some ''k1'')) DELETE_jobs ''2024-01-02T00:00:00.000Z''
        (sample_request [(''x-api-key'', ''k1'')] [] ''constructor'')
        (startup (sample_platform (Some ''k1''))))
       = \<lparr>status = 200, payload = JObject [(''message'', JString ''Job deleted successfully'')]\<rparr>"
proof -
  let ?P = "sample_platform (Some ''k1'')"
  let ?p = "sample_request [(''x-api-key'', ''k1'')]
         [(''id'', ''__proto__''), (''url'', ''https://example.com/a''),
          (''schedule'', ''* * * * *'')] []"
  let ?t = "\<lparr>t_id = ''__proto__'', t_url = Some ''https://example.com/a'',
            t_schedule = ''* * * * *'', t_cronSecret = None, running = True\<rparr>"
  let ?posted = "\<lparr>dataDir = True, jobsFile = Some (JSON_stringify []), tasks = [?t],
       activeJobs = [''__proto__'' \<mapsto> 0], fetched = [], console = []\<rparr>"
  have s: "startup ?P = initial\<lparr>dataDir := True\<rparr>"
    by (simp add: startup_def initializeJobs_def ensureDataDirectory_def loadJobs_def initial_def)
  have l: "loadJobs (initial\<lparr>dataDir := True\<rparr>) = []"
    "loadJobs \<lparr>dataDir = True, jobsFile = None, tasks = [], activeJobs = Map.empty,
       fetched = [], console = []\<rparr> = []"
    by (simp_all add: loadJobs_def initial_def)
  have w: "wf_jobs []"
    by (simp add: wf_jobs_def obj_keys_def)
  have p: "post_checks ?P ?p = Inr (''__proto__'', ''https://example.com/a'', ''* * * * *'', None)"
    by (simp add: post_checks_def sample_request_def sample_platform_def sample_validate_def
        sample_url_parses_def)
  have v: "cron_validate ?P ''* * * * *''"
    by (simp add: sample_platform_def sample_validate_def)
  have k: "apiKeyMiddleware ?P (sample_request [(''x-api-key'', ''k1'')] b i)
      = Inr (sample_request [(''x-api-key'', ''k1'')] b i)" for b i
    by (simp add: apiKeyMiddleware_def sample_request_def sample_platform_def)
  have posted: "snd (serve ?P POST_jobs ''2024-01-01T00:00:00.000Z'' ?p (startup ?P)) = ?posted"
    unfolding serve_def k handler_def s
    by (simp add: post_jobs_handler_def p l saveJobs_def js_assign_def startJob_parses [OF v]
        initial_def)
  have lp: "loadJobs ?posted = []"
    using loadJobs_written [OF w, of ?posted] by simp
  have d: "serve ?P DELETE_jobs ''2024-01-02T00:00:00.000Z''
             (sample_request [(''x-api-key'', ''k1'')] [] ''__proto__'') ?posted
      = (\<lparr>status = 200, payload = JObject [(''message'', JString ''Job deleted successfully'')]\<rparr>,
         \<lparr>dataDir = True, jobsFile = Some (JSON_stringify []),
           tasks = [?t\<lparr>running := False\<rparr>], activeJobs = Map.empty,
           fetched = [], console = []\<rparr>)"
    unfolding serve_def k handler_def
    by (simp add: delete_jobs_handler_def delete_job_def lp js_truthy_def proto_names_def
        sample_request_def stopJob_def stop_def saveJobs_def)
  have c: "fst (serve ?P DELETE_jobs ''2024-01-02T00:00:00.000Z''
             (sample_request [(''x-api-key'', ''k1'')] [] ''constructor'') (startup ?P))
      = \<lparr>status = 200, payload = JObject [(''message'', JString ''Job deleted successfully'')]\<rparr>"
    unfolding serve_def k handler_def s
    by (simp add: delete_jobs_handler_def delete_job_def l js_truthy_def proto_names_def
        sample_request_def stopJob_def saveJobs_def initial_def)
  show ?thesis
    unfolding posted d
    using c by (simp add: lp s l armed_def live_timers_def)
qed

section \<open>What the responses show\<close>

















lemma post_response:
  "fst (post_jobs_handler P now req s) =
     (case (obj_get (body req) ''id'', obj_get (body req) ''url'', obj_get (body req) ''schedule'') of
        (Some i, Some u, Some e) \<Rightarrow>
          if i = [] \<or> u = [] \<or> e = [] then error_response 400 ''Missing required fields''
          else if \<not> cron_validate P e then error_response 400 ''Invalid cron schedule''
          else if \<not> url_parses P u then error_response 400 ''Invalid URL format''
          else if \<not> dataDir s then error_response 500 (message WriteFailed)
          else \<lparr>status = 200,
                 payload = JObject
                   [(''message'', JString ''Job added successfully''),
                    (''job'', JObject
                       [(''id'', JString i), (''url'', JString u), (''schedule'', JString e),
                        (''createdAt'', JString now), (''createdBy'', JString ''JIMEX-X'')])]\<rparr>
      | _ \<Rightarrow> error_response 400 ''Missing required fields'')"
proof (cases "post_checks P req")
  case (Inl res)
  then show ?thesis
    by (auto simp: post_jobs_handler_def post_checks_def Let_def split: option.splits if_splits)
next
  case (Inr new)
  then obtain i u e where f: "obj_get (body req) ''id'' = Some i" "i \<noteq> []"
      "obj_get (body req) ''url'' = Some u" "u \<noteq> []" "url_parses P u"
      "obj_get (body req) ''schedule'' = Some e" "e \<noteq> []" "cron_validate P e"
    by (auto simp: post_checks_def Let_def split: option.splits if_splits)
  show ?thesis
  proof (cases "dataDir s")
    case True
    show ?thesis
      unfolding post_accepts [OF f True] using f True by simp
  next
    case False
    show ?thesis
      unfolding post_write_fails [OF f False] using f False by simp
  qed
qed

lemma obj_get_set_secret: "k \<noteq> ''cronSecret'' \<Longrightarrow> obj_get (set_secret c b) k = obj_get b k"
  by (cases c) (simp_all add: set_secret_def obj_get_obj_set obj_get_obj_delete)

text \<open>
  C10. When POST /jobs answers 200, the body is a message and a job object whose fields
  are id, url, schedule, createdAt and createdBy, in this order, so it has no
  \<open>cronSecret\<close>. The response to a request is the same whatever secret the request
  carries, or none.
\<close>

theorem post_response_omits_secret:
  "(status (fst (post_jobs_handler P now req s)) = 200 \<longrightarrow>
      json_fields (payload (fst (post_jobs_handler P now req s))) = [''message'', ''job'']
      \<and> (case json_get (payload (fst (post_jobs_handler P now req s))) ''job'' of
            None \<Rightarrow> False
          | Some j \<Rightarrow>
              json_fields j = [''id'', ''url'', ''schedule'', ''createdAt'', ''createdBy'']
              \<and> ''cronSecret'' \<notin> set (json_fields j)
              \<and> json_get j ''id'' = map_option JString (obj_get (body req) ''id'')
              \<and> json_get j ''url'' = map_option JString (obj_get (body req) ''url'')
              \<and> json_get j ''schedule'' = map_option JString (obj_get (body req) ''schedule'')
              \<and> json_get j ''createdAt'' = Some (JString now)
              \<and> json_get j ''createdBy'' = Some (JString ''JIMEX-X'')))
   \<and> fst (post_jobs_handler P now (req\<lparr>body := set_secret c (body req)\<rparr>) s)
       = fst (post_jobs_handler P now req s)"
proof (intro conjI impI)
  assume ok: "status (fst (post_jobs_handler P now req s)) = 200"
  then obtain i u e where f: "obj_get (body req) ''id'' = Some i"
      "obj_get (body req) ''url'' = Some u" "obj_get (body req) ''schedule'' = Some e"
    and r: "fst (post_jobs_handler P now req s) =
       \<lparr>status = 200,
         payload = JObject
           [(''message'', JString ''Job added successfully''),
            (''job'', JObject
               [(''id'', JString i), (''url'', JString u), (''schedule'', JString e),
                (''createdAt'', JString now), (''createdBy'', JString ''JIMEX-X'')])]\<rparr>"
    unfolding post_response
    by (auto simp: error_response_def split: option.splits if_splits)
  show "json_fields (payload (fst (post_jobs_handler P now req s))) = [''message'', ''job'']"
    unfolding r by simp
  show "case json_get (payload (fst (post_jobs_handler P now req s))) ''job'' of
            None \<Rightarrow> False
          | Some j \<Rightarrow>
              json_fields j = [''id'', ''url'', ''schedule'', ''createdAt'', ''createdBy'']
              \<and> ''cronSecret'' \<notin> set (json_fields j)
              \<and> json_get j ''id'' = map_option JString (obj_get (body req) ''id'')
              \<and> json_get j ''url'' = map_option JString (obj_get (body req) ''url'')
              \<and> json_get j ''schedule'' = map_option JString (obj_get (body req) ''schedule'')
              \<and> json_get j ''createdAt'' = Some (JString now)
              \<and> json_get j ''createdBy'' = Some (JString ''JIMEX-X'')"
    unfolding r f by simp
next
  show "fst (post_jobs_handler P now (req\<lparr>body := set_secret c (body req)\<rparr>) s)
       = fst (post_jobs_handler P now req s)"
    unfolding post_response by (simp add: obj_get_set_secret)
qed

theorem post_response_omits_secret_witness:
  "fst (post_jobs_handler (sample_platform (Some ''k1'')) ''2024-01-01T00:00:00.000Z''
         (sample_request [(''x-api-key'', ''k1'')]
            [(''id'', ''a''), (''url'', ''https://example.com/a''), (''schedule'', ''*/5 * * * *''),
             (''cronSecret'', ''s3cret'')] [])
         (initial\<lparr>dataDir := True\<rparr>))
     = \<lparr>status = 200,
        payload = JObject
          [(''message'', JString ''Job added successfully''),
           (''job'', JObject
              [(''id'', JString ''a''), (''url'', JString ''https://example.com/a''),
               (''schedule'', JString ''*/5 * * * *''),
               (''createdAt'', JString ''2024-01-01T00:00:00.000Z''),
               (''createdBy'', JString ''JIMEX-X'')])]\<rparr>
   \<and> json_fields (payload (fst (post_jobs_handler (sample_platform (Some ''k1''))
         ''2024-01-01T00:00:00.000Z''
         (sample_request [(''x-api-key'', ''k1'')]
            [(''id'', ''a''), (''url'', ''https://example.com/a''), (''schedule'', ''*/5 * * * *''),
             (''cronSecret'', ''s3cret'')] [])
         (initial\<lparr>dataDir := True\<rparr>)))) = [''message'', ''job'']"
proof -
  let ?P = "sample_platform (Some ''k1'')"
  let ?req = "sample_request [(''x-api-key'', ''k1'')]
            [(''id'', ''a''), (''url'', ''https://example.com/a''), (''schedule'', ''*/5 * * * *''),
             (''cronSecret'', ''s3cret'')] []"
  let ?s = "initial\<lparr>dataDir := True\<rparr>"
  have r: "fst (post_jobs_handler ?P ''2024-01-01T00:00:00.000Z'' ?req ?s)
     = \<lparr>status = 200,
        payload = JObject
          [(''message'', JString ''Job added successfully''),
           (''job'', JObject
              [(''id'', JString ''a''), (''url'', JString ''https://example.com/a''),
               (''schedule'', JString ''*/5 * * * *''),
               (''createdAt'', JString ''2024-01-01T00:00:00.000Z''),
               (''createdBy'', JString ''JIMEX-X'')])]\<rparr>"
    unfolding post_response
    by (simp add: sample_request_def sample_platform_def sample_validate_def
        sample_url_parses_def)
  then have ok: "status (fst (post_jobs_handler ?P ''2024-01-01T00:00:00.000Z'' ?req ?s)) = 200"
    by simp
  from post_response_omits_secret [of ?P "''2024-01-01T00:00:00.000Z''" ?req ?s] ok
  have "json_fields (payload (fst (post_jobs_handler ?P ''2024-01-01T00:00:00.000Z'' ?req ?s)))
      = [''message'', ''job'']"
    by blast
  with r show ?thesis by blast
qed

section \<open>Delivery\<close>

lemma delivery_headers_content_type:
  "obj_get (delivery_headers c) ''Content-Type'' = Some ''application/json''"
  by (simp add: delivery_headers_def Let_def split: option.splits)

lemma delivery_headers_authorization:
  "obj_get (delivery_headers c) ''Authorization''
     = (case c of None \<Rightarrow> None | Some x \<Rightarrow> if x = [] then None else Some (''Bearer '' @ x))"
  by (simp add: delivery_headers_def Let_def split: option.splits)

lemma delivery_headers_keys:
  "obj_keys (delivery_headers c)
     = (if truthy c then [''Content-Type'', ''Authorization''] else [''Content-Type''])"
  by (cases c) (simp_all add: delivery_headers_def obj_keys_def Let_def)

lemma fire_running:
  "h < length (tasks s) \<Longrightarrow> running (tasks s ! h) \<Longrightarrow>
   fire h now outcome s =
     s\<lparr>fetched := fetched s @ [fst (callback (tasks s ! h) now outcome)],
       console := console s @ [snd (callback (tasks s ! h) now outcome)]\<rparr>"
  by (simp add: fire_def split: prod.splits)

lemma fire_stopped:
  "\<not> (h < length (tasks s) \<and> running (tasks s ! h)) \<Longrightarrow> fire h now outcome s = s"
  by (auto simp: fire_def)

lemma fire_frame:
  "tasks (fire h now outcome s) = tasks s" "activeJobs (fire h now outcome s) = activeJobs s"
  "jobsFile (fire h now outcome s) = jobsFile s" "dataDir (fire h now outcome s) = dataDir s"
  by (simp_all add: fire_def split: prod.splits)

text \<open>
  C6. A running task that fires calls \<open>fetch\<close> once, with the url of its job, method
  POST and the header Content-Type: application/json. The call has an Authorization
  header exactly when the job's secret is a non-empty string, and then it is
  \<open>Bearer\<close> followed by the secret; with an empty or absent secret the only header is
  Content-Type. A task that is not running does not fire.
\<close>

theorem delivery_request:
  "(h < length (tasks s) \<and> running (tasks s ! h) \<longrightarrow>
      fetched (fire h now outcome s) = fetched s @ [fst (callback (tasks s ! h) now outcome)])
   \<and> (\<not> (h < length (tasks s) \<and> running (tasks s ! h)) \<longrightarrow> fire h now outcome s = s)
   \<and> f_method (fst (callback t now outcome)) = ''POST''
   \<and> f_url (fst (callback t now outcome)) = t_url t
   \<and> obj_get (f_headers (fst (callback t now outcome))) ''Content-Type''
       = Some ''application/json''
   \<and> (obj_get (f_headers (fst (callback t now outcome))) ''Authorization'' \<noteq> None
        \<longleftrightarrow> truthy (t_cronSecret t))
   \<and> (\<forall>x. t_cronSecret t = Some x \<and> x \<noteq> [] \<longrightarrow>
        obj_get (f_headers (fst (callback t now outcome))) ''Authorization''
          = Some (''Bearer '' @ x))
   \<and> obj_keys (f_headers (fst (callback t now outcome)))
       = (if truthy (t_cronSecret t) then [''Content-Type'', ''Authorization'']
          else [''Content-Type''])"
proof (intro conjI impI allI)
  show "fetched (fire h now outcome s) = fetched s @ [fst (callback (tasks s ! h) now outcome)]"
    if "h < length (tasks s) \<and> running (tasks s ! h)"
    using that by (simp add: fire_running)
  show "fire h now outcome s = s" if "\<not> (h < length (tasks s) \<and> running (tasks s ! h))"
    using that by (rule fire_stopped)
  show "f_method (fst (callback t now outcome)) = ''POST''"
    by (simp add: callback_def)
  show "f_url (fst (callback t now outcome)) = t_url t"
    by (simp add: callback_def)
  show "obj_get (f_headers (fst (callback t now outcome))) ''Content-Type''
       = Some ''application/json''"
    by (simp add: callback_def delivery_headers_content_type)
  show "obj_get (f_headers (fst (callback t now outcome))) ''Authorization'' \<noteq> None
        \<longleftrightarrow> truthy (t_cronSecret t)"
    by (cases "t_cronSecret t") (simp_all add: callback_def delivery_headers_authorization)
  show "obj_get (f_headers (fst (callback t now outcome))) ''Authorization''
          = Some (''Bearer '' @ x)"
    if "t_cronSecret t = Some x \<and> x \<noteq> []" for x
    using that by (simp add: callback_def delivery_headers_authorization)
  show "obj_keys (f_headers (fst (callback t now outcome)))
       = (if truthy (t_cronSecret t) then [''Content-Type'', ''Authorization'']
          else [''Content-Type''])"
    by (simp add: callback_def delivery_headers_keys)
qed

theorem delivery_request_witness:
  "fetched (fire 0 ''2024-01-01T00:05:00.000Z'' (Responded 200)
      (snd (startJob (sample_platform None) ''a'' (Some ''https://example.com/a'')
              (Some ''*/5 * * * *'') (Some ''s3cret'') initial)))
     = [\<lparr>f_url = Some ''https://example.com/a'', f_method = ''POST'',
         f_headers = [(''Content-Type'', ''application/json''),
                      (''Authorization'', ''Bearer s3cret'')]\<rparr>]
   \<and> fetched (fire 0 ''2024-01-01T00:05:00.000Z'' (Responded 200)
      (snd (startJob (sample_platform None) ''a'' (Some ''https://example.com/a'')
              (Some ''*/5 * * * *'') (Some []) initial)))
     = [\<lparr>f_url = Some ''https://example.com/a'', f_method = ''POST'',
         f_headers = [(''Content-Type'', ''application/json'')]\<rparr>]"
proof -
  let ?s = "\<lambda>c. snd (startJob (sample_platform None) ''a'' (Some ''https://example.com/a'')
              (Some ''*/5 * * * *'') c initial)"
  have s: "?s c = initial\<lparr>tasks := [\<lparr>t_id = ''a'', t_url = Some ''https://example.com/a'',
       t_schedule = ''*/5 * * * *'', t_cronSecret = c, running = True\<rparr>],
       activeJobs := [''a'' \<mapsto> 0]\<rparr>" for c
    by (simp add: startJob_def sample_platform_def sample_validate_def initial_def)
  have r: "0 < length (tasks (?s c)) \<and> running (tasks (?s c) ! 0)" for c
    unfolding s by simp
  have f: "fetched (?s c) = []" for c
    unfolding s by (simp add: initial_def)
  from delivery_request [of 0 "?s (Some ''s3cret'')" "''2024-01-01T00:05:00.000Z''" "Responded 200"]
    r [of "Some ''s3cret''"]
  have 1: "fetched (fire 0 ''2024-01-01T00:05:00.000Z'' (Responded 200) (?s (Some ''s3cret'')))
      = fetched (?s (Some ''s3cret''))
        @ [fst (callback (tasks (?s (Some ''s3cret'')) ! 0) ''2024-01-01T00:05:00.000Z'' (Responded 200))]"
    by blast
  from delivery_request [of 0 "?s (Some [])" "''2024-01-01T00:05:00.000Z''" "Responded 200"]
    r [of "Some []"]
  have 2: "fetched (fire 0 ''2024-01-01T00:05:00.000Z'' (Responded 200) (?s (Some [])))
      = fetched (?s (Some []))
        @ [fst (callback (tasks (?s (Some [])) ! 0) ''2024-01-01T00:05:00.000Z'' (Responded 200))]"
    by blast
  have 3: "fst (callback (tasks (?s c) ! 0) ''2024-01-01T00:05:00.000Z'' (Responded 200))
      = \<lparr>f_url = Some ''https://example.com/a'', f_method = ''POST'',
         f_headers = delivery_headers c\<rparr>" for c
    unfolding s by (simp add: callback_def)
  show ?thesis
    unfolding 1 2 f 3 by (simp add: delivery_headers_def)
qed

lemma armed_fire: "armed (fire h now outcome s) = armed s"
  by (rule ext) (simp add: armed_def fire_frame split: option.splits)

lemma live_timers_fire: "live_timers (fire h now outcome s) i = live_timers s i"
  by (simp add: live_timers_def fire_frame)

text \<open>
  C7. A fire whose delivery fails returns normally: the failure is logged as an error
  line with the timestamp, the id and the message, and nothing else happens. No fire
  changes the tasks, the active-jobs map, the persisted map, what each id is armed with
  or the live timers; after a failed delivery the task is still running, and its next
  fire issues the delivery call again.
\<close>

theorem delivery_failure_contained:
  "tasks (fire h now outcome s) = tasks s
   \<and> activeJobs (fire h now outcome s) = activeJobs s
   \<and> jobsFile (fire h now outcome s) = jobsFile s
   \<and> armed (fire h now outcome s) = armed s
   \<and> live_timers (fire h now outcome s) i = live_timers s i
   \<and> (h < length (tasks s) \<and> running (tasks s ! h) \<longrightarrow>
        console (fire h now (Rejected msg) s)
          = console s @ [ErrorExecuting now (t_id (tasks s ! h)) msg]
        \<and> running (tasks (fire h now (Rejected msg) s) ! h)
        \<and> fetched (fire h now' outcome (fire h now (Rejected msg) s))
            = fetched (fire h now (Rejected msg) s)
              @ [fst (callback (tasks s ! h) now' outcome)])"
proof (intro conjI impI)
  show "tasks (fire h now outcome s) = tasks s" "activeJobs (fire h now outcome s) = activeJobs s"
    "jobsFile (fire h now outcome s) = jobsFile s"
    by (simp_all add: fire_frame)
  show "armed (fire h now outcome s) = armed s"
    by (rule armed_fire)
  show "live_timers (fire h now outcome s) i = live_timers s i"
    by (rule live_timers_fire)
next
  assume r: "h < length (tasks s) \<and> running (tasks s ! h)"
  show "console (fire h now (Rejected msg) s)
          = console s @ [ErrorExecuting now (t_id (tasks s ! h)) msg]"
    using r by (simp add: fire_running callback_def)
  show "running (tasks (fire h now (Rejected msg) s) ! h)"
    using r by (simp add: fire_frame)
  have "h < length (tasks (fire h now (Rejected msg) s))
      \<and> running (tasks (fire h now (Rejected msg) s) ! h)"
    using r by (simp add: fire_frame)
  then show "fetched (fire h now' outcome (fire h now (Rejected msg) s))
            = fetched (fire h now (Rejected msg) s)
              @ [fst (callback (tasks s ! h) now' outcome)]"
    by (simp add: fire_running [of h "fire h now (Rejected msg) s"] fire_frame)
qed

theorem delivery_failure_contained_witness:
  "console (fire 0 ''2024-01-01T00:05:00.000Z'' (Rejected ''connect ECONNREFUSED'')
      (snd (startJob (sample_platform None) ''a'' (Some ''https://example.com/a'')
              (Some ''*/5 * * * *'') None initial)))
     = [ErrorExecuting ''2024-01-01T00:05:00.000Z'' ''a'' ''connect ECONNREFUSED'']
   \<and> running (tasks (fire 0 ''2024-01-01T00:05:00.000Z'' (Rejected ''connect ECONNREFUSED'')
      (snd (startJob (sample_platform None) ''a'' (Some ''https://example.com/a'')
              (Some ''*/5 * * * *'') None initial))) ! 0)"
proof -
  let ?s = "snd (startJob (sample_platform None) ''a'' (Some ''https://example.com/a'')
              (Some ''*/5 * * * *'') None initial)"
  have s: "?s = initial\<lparr>tasks := [\<lparr>t_id = ''a'', t_url = Some ''https://example.com/a'',
       t_schedule = ''*/5 * * * *'', t_cronSecret = None, running = True\<rparr>],
       activeJobs := [''a'' \<mapsto> 0]\<rparr>"
    by (simp add: startJob_def sample_platform_def sample_validate_def initial_def)
  have r: "0 < length (tasks ?s) \<and> running (tasks ?s ! 0)"
    unfolding s by simp
  have c: "console ?s = []" "t_id (tasks ?s ! 0) = ''a''"
    unfolding s by (simp_all add: initial_def)
  from delivery_failure_contained [of 0 "''2024-01-01T00:05:00.000Z''" _ ?s _
      "''connect ECONNREFUSED''"] r
  have "console (fire 0 ''2024-01-01T00:05:00.000Z'' (Rejected ''connect ECONNREFUSED'') ?s)
          = console ?s @ [ErrorExecuting ''2024-01-01T00:05:00.000Z'' (t_id (tasks ?s ! 0))
               ''connect ECONNREFUSED'']
        \<and> running (tasks (fire 0 ''2024-01-01T00:05:00.000Z'' (Rejected ''connect ECONNREFUSED'') ?s) ! 0)"
    by blast
  then show ?thesis unfolding c by simp
qed

section \<open>Persistence and startup\<close>

lemma obj_keys_job_record:
  "obj_keys (job_record u e c now)
     = [''url'', ''schedule''] @ (case c of None \<Rightarrow> [] | Some x \<Rightarrow> [''cronSecret''])
       @ [''createdAt'', ''createdBy'']"
  by (cases c) (simp_all add: job_record_def obj_keys_def)

lemma entry_of_job_record: "entry_of (job_record u e c now) = Some (Some u, e, c)"
  by (cases c) (simp_all add: entry_of_def job_record_def)

lemma replayable_obj_set:
  "replayable P js \<Longrightarrow> obj_get j ''schedule'' = Some e \<Longrightarrow> cron_validate P e \<Longrightarrow>
   replayable P (obj_set js i j)"
  unfolding replayable_def by (induction js) auto

lemma replayable_obj_delete: "replayable P js \<Longrightarrow> replayable P (obj_delete js i)"
  unfolding replayable_def by (induction js) auto

lemma replayable_entry_parses: "replayable P js = list_all (entry_parses P) js"
  by (simp add: replayable_def entry_parses_def [abs_def])

lemma shaped_obj_set: "shaped js \<Longrightarrow> shaped (obj_set js i (job_record u e c now))"
  unfolding shaped_def
  by (rule list_all_obj_set) (cases c; simp add: obj_keys_job_record)+

lemma shaped_obj_delete: "shaped js \<Longrightarrow> shaped (obj_delete js i)"
  unfolding shaped_def by (rule list_all_obj_delete)

lemma post_checks_fields:
  assumes "post_checks P req = Inr (i, u, e, c)"
  shows "obj_get (body req) ''id'' = Some i" "i \<noteq> []"
    "obj_get (body req) ''url'' = Some u" "u \<noteq> []" "url_parses P u"
    "obj_get (body req) ''schedule'' = Some e" "e \<noteq> []" "cron_validate P e"
    "obj_get (body req) ''cronSecret'' = c"
  using assms by (auto simp: post_checks_def Let_def split: option.splits if_splits)

lemma loadJobs_post_accepts:
  assumes "post_checks P req = Inr (i, u, e, c)" and "dataDir s"
  shows "loadJobs (snd (post_jobs_handler P now req s))
           = js_assign (loadJobs s) i (job_record u e c now)"
proof -
  note f = post_checks_fields [OF assms(1)]
  have "wf_jobs (js_assign (loadJobs s) i (job_record u e c now))"
    using wf_jobs_loadJobs by (rule wf_jobs_js_assign)
  then show ?thesis
    unfolding post_accepts [OF f(1-8) assms(2)] f(9)
    using assms(2) by (simp add: loadJobs_cong [OF startJob_frame(1)] loadJobs_saveJobs)
qed

lemma loadJobs_post:
  "loadJobs (snd (post_jobs_handler P now req s)) = loadJobs s
   \<or> (\<exists>i u e c. cron_validate P e
         \<and> loadJobs (snd (post_jobs_handler P now req s))
             = obj_set (loadJobs s) i (job_record u e c now))"
proof (cases "post_checks P req")
  case (Inl res)
  then show ?thesis by (simp add: post_jobs_handler_def)
next
  case (Inr new)
  obtain i u e c where new: "new = (i, u, e, c)"
    by (cases new)
  note f = post_checks_fields [OF Inr [unfolded new]]
  show ?thesis
  proof (cases "dataDir s")
    case True
    have "js_assign (loadJobs s) i (job_record u e c now) = loadJobs s
        \<or> js_assign (loadJobs s) i (job_record u e c now)
            = obj_set (loadJobs s) i (job_record u e c now)"
      by (simp add: js_assign_def)
    then show ?thesis
      using loadJobs_post_accepts [OF Inr [unfolded new] True, of now] f(8) by metis
  next
    case False
    show ?thesis
      by (simp add: post_write_fails [OF f(1-8) False])
  qed
qed

lemma loadJobs_delete:
  "loadJobs (snd (delete_jobs_handler req s)) = loadJobs s
   \<or> loadJobs (snd (delete_jobs_handler req s)) = obj_delete (loadJobs s) (param_id req)"
proof (cases "js_truthy (loadJobs s) (param_id req)")
  case False
  then show ?thesis
    by (simp add: delete_jobs_handler_def delete_job_def Let_def)
next
  case True
  show ?thesis
  proof (cases "dataDir s")
    case False
    with True have "snd (delete_jobs_handler req s) = stopJob (param_id req) s"
      by (simp add: delete_jobs_handler_def delete_job_def Let_def saveJobs_no_dataDir
          stopJob_frame)
    then show ?thesis by (simp add: loadJobs_stopJob)
  next
    case d: True
    have w: "wf_jobs (obj_delete (loadJobs s) (param_id req))"
      using wf_jobs_loadJobs by (rule wf_jobs_obj_delete)
    from True d have "snd (delete_jobs_handler req s)
        = (stopJob (param_id req) s)
            \<lparr>jobsFile := Some (JSON_stringify (obj_delete (loadJobs s) (param_id req)))\<rparr>"
      by (simp add: delete_jobs_handler_def delete_job_def Let_def saveJobs_dataDir
          stopJob_frame)
    then show ?thesis by (simp add: loadJobs_written [OF w])
  qed
qed

lemma store_ok_post: "store_ok P s \<Longrightarrow> store_ok P (snd (post_jobs_handler P now req s))"
proof -
  assume ok: "store_ok P s"
  from loadJobs_post [of P now req s] show ?thesis
  proof
    assume "loadJobs (snd (post_jobs_handler P now req s)) = loadJobs s"
    with ok show ?thesis by (simp add: store_ok_def)
  next
    assume "\<exists>i u e c. cron_validate P e
         \<and> loadJobs (snd (post_jobs_handler P now req s))
             = obj_set (loadJobs s) i (job_record u e c now)"
    then obtain i u e c where v: "cron_validate P e"
      and l: "loadJobs (snd (post_jobs_handler P now req s))
             = obj_set (loadJobs s) i (job_record u e c now)"
      by blast
    have "obj_get (job_record u e c now) ''schedule'' = Some e"
      by (simp add: job_record_def)
    with ok v show ?thesis
      unfolding store_ok_def l by (simp add: distinct_obj_set replayable_obj_set)
  qed
qed

lemma store_ok_delete: "store_ok P s \<Longrightarrow> store_ok P (snd (delete_jobs_handler req s))"
  using loadJobs_delete [of req s]
  by (auto simp: store_ok_def distinct_obj_delete replayable_obj_delete)

lemma store_ok_serve: "store_ok P s \<Longrightarrow> store_ok P (snd (serve P r now req s))"
proof -
  assume ok: "store_ok P s"
  have "store_ok P (snd (handler P r now req s))"
    using ok by (cases r) (simp_all add: handler_def store_ok_post store_ok_delete get_jobs_handler_def)
  with ok serve_cases [of P r now req s] show ?thesis by auto
qed

lemma shaped_serve:
  assumes "shaped (loadJobs s)"
  shows "shaped (loadJobs (snd (serve P r now req s)))"
proof -
  have "shaped (loadJobs (snd (handler P r now req s)))"
  proof (cases r)
    case POST_jobs
    from loadJobs_post [of P now req s] assms show ?thesis
      unfolding POST_jobs handler_def by (auto simp: shaped_obj_set)
  next
    case GET_jobs
    with assms show ?thesis by (simp add: handler_def get_jobs_handler_def)
  next
    case DELETE_jobs
    from loadJobs_delete [of req s] assms show ?thesis
      unfolding DELETE_jobs handler_def by (auto simp: shaped_obj_delete)
  qed
  with assms serve_cases [of P r now req s] show ?thesis by auto
qed

lemma store_ok_serve_all: "store_ok P s \<Longrightarrow> store_ok P (serve_all P cs s)"
proof (induction cs arbitrary: s)
  case Nil
  then show ?case by simp
next
  case (Cons c cs)
  obtain r now req where c: "c = (r, now, req)"
    by (cases c)
  show ?case
    unfolding c using Cons.prems by (simp add: Cons.IH store_ok_serve)
qed

lemma shaped_serve_all: "shaped (loadJobs s) \<Longrightarrow> shaped (loadJobs (serve_all P cs s))"
proof (induction cs arbitrary: s)
  case Nil
  then show ?case by simp
next
  case (Cons c cs)
  obtain r now req where c: "c = (r, now, req)"
    by (cases c)
  show ?case
    unfolding c using Cons.prems by (simp add: Cons.IH shaped_serve)
qed

lemma startup_eq: "startup P = initial\<lparr>dataDir := True\<rparr>"
  by (simp add: startup_def initializeJobs_def ensureDataDirectory_def loadJobs_def initial_def)

lemma loadJobs_startup: "loadJobs (startup P) = []"
  by (simp add: startup_eq loadJobs_def initial_def)

lemma store_ok_startup: "store_ok P (startup P)"
  by (simp add: store_ok_def loadJobs_startup obj_keys_def replayable_def)

lemma armed_startJob_fails:
  "(\<forall>e. sc = Some e \<longrightarrow> \<not> cron_validate P e) \<Longrightarrow> armed (snd (startJob P i u sc c s)) i = None"
  by (cases sc) (auto simp: startJob_def armed_def Let_def tasks_stop_nth split: option.splits)

lemma forEach_startJob_frame: "jobsFile (snd (forEach_startJob P js s)) = jobsFile s"
proof (induction js arbitrary: s)
  case Nil
  then show ?case by simp
next
  case (Cons p ps)
  obtain r s' where st: "startJob P (fst p) (obj_get (snd p) ''url'') (obj_get (snd p) ''schedule'')
             (obj_get (snd p) ''cronSecret'') s = (r, s')"
    by (cases "startJob P (fst p) (obj_get (snd p) ''url'') (obj_get (snd p) ''schedule'')
             (obj_get (snd p) ''cronSecret'') s")
  have "jobsFile s' = jobsFile s"
    using startJob_frame(1) [of P "fst p" "obj_get (snd p) ''url''" "obj_get (snd p) ''schedule''"
        "obj_get (snd p) ''cronSecret''" s] st by simp
  then show ?case
    using Cons.IH [of s'] st by (cases r) simp_all
qed

text \<open>
  The loop of \<open>initializeJobs\<close>: the entries before the first one whose schedule does not
  parse are armed, each with its own record; the throw at that entry ends the loop.
\<close>

lemma forEach_startJob_replay:
  "consistent s \<Longrightarrow> distinct (obj_keys js) \<Longrightarrow>
   armed (snd (forEach_startJob P js s)) i
     = (case obj_get (takeWhile (entry_parses P) js) i of
          Some j \<Rightarrow> entry_of j
        | None \<Rightarrow> if i \<in> set (obj_keys (take 1 (dropWhile (entry_parses P) js))) then None
                  else armed s i)"
proof (induction js arbitrary: s)
  case Nil
  then show ?case by (simp add: obj_keys_def)
next
  case (Cons p ps)
  let ?s1 = "snd (startJob P (fst p) (obj_get (snd p) ''url'') (obj_get (snd p) ''schedule'')
                (obj_get (snd p) ''cronSecret'') s)"
  have other: "armed ?s1 i = armed s i" if "i \<noteq> fst p"
    using Cons.prems(1) that by (rule armed_startJob_other)
  show ?case
  proof (cases "entry_parses P p")
    case True
    then obtain e where e: "obj_get (snd p) ''schedule'' = Some e" and v: "cron_validate P e"
      by (auto simp: entry_parses_def split: option.splits)
    have "fst (startJob P (fst p) (obj_get (snd p) ''url'') (obj_get (snd p) ''schedule'')
                (obj_get (snd p) ''cronSecret'') s) = None"
      using v by (simp add: fst_startJob e)
    then have step: "forEach_startJob P (p # ps) s = forEach_startJob P ps ?s1"
      by (cases "startJob P (fst p) (obj_get (snd p) ''url'') (obj_get (snd p) ''schedule'')
                (obj_get (snd p) ''cronSecret'') s") simp
    have c1: "consistent ?s1"
      using Cons.prems(1) by (rule consistent_startJob)
    have d: "distinct (obj_keys ps)" and fresh: "fst p \<notin> set (obj_keys ps)"
      using Cons.prems(2) by (simp_all add: obj_keys_def)
    note ih = Cons.IH [OF c1 d]
    have same: "armed ?s1 (fst p) = entry_of (snd p)"
      using v by (simp add: armed_startJob_same entry_of_def e)
    show ?thesis
    proof (cases "i = fst p")
      case i: True
      have "fst p \<notin> set (obj_keys (takeWhile (entry_parses P) ps))"
        using fresh set_takeWhileD [of _ "entry_parses P" ps] by (auto simp: obj_keys_def)
      then have 1: "obj_get (takeWhile (entry_parses P) ps) (fst p) = None"
        by (simp add: obj_get_None_iff)
      have 2: "fst p \<notin> set (obj_keys (take 1 (dropWhile (entry_parses P) ps)))"
        using fresh set_dropWhileD [of _ "entry_parses P" ps]
          in_set_takeD [of _ 1 "dropWhile (entry_parses P) ps"]
        by (auto simp: obj_keys_def)
      from ih True 1 2 same show ?thesis
        unfolding step i by simp
    next
      case False
      then have o: "armed ?s1 i = armed s i"
        by (rule other)
      have ne: "fst p \<noteq> i"
        using False by blast
      from ih True ne show ?thesis
        unfolding step o by simp
    qed
  next
    case False
    then have bad: "\<forall>e. obj_get (snd p) ''schedule'' = Some e \<longrightarrow> \<not> cron_validate P e"
      by (auto simp: entry_parses_def)
    have "fst (startJob P (fst p) (obj_get (snd p) ''url'') (obj_get (snd p) ''schedule'')
                (obj_get (snd p) ''cronSecret'') s) = Some InvalidPattern"
      by (simp add: startJob_invalid [OF bad])
    then have step: "snd (forEach_startJob P (p # ps) s) = ?s1"
      by (cases "startJob P (fst p) (obj_get (snd p) ''url'') (obj_get (snd p) ''schedule'')
                (obj_get (snd p) ''cronSecret'') s") simp
    show ?thesis
      unfolding step using False other armed_startJob_fails [OF bad]
      by (simp add: obj_keys_def)
  qed
qed

lemma initializeJobs_replay:
  assumes "tasks s = []" and "activeJobs s = Map.empty"
  shows "armed (snd (initializeJobs P s)) i
           = (case obj_get (takeWhile (entry_parses P) (loadJobs s)) i of
                None \<Rightarrow> None
              | Some j \<Rightarrow> entry_of j)"
    and "loadJobs (snd (initializeJobs P s)) = loadJobs s"
proof -
  let ?s1 = "ensureDataDirectory s"
  have c: "consistent ?s1"
    using assms by (simp add: consistent_def ensureDataDirectory_def)
  have l: "loadJobs ?s1 = loadJobs s"
    by (rule loadJobs_ensureDataDirectory)
  have e: "armed ?s1 i = None"
    using assms(2) by (simp add: armed_def ensureDataDirectory_def)
  have j: "jobsFile ?s1 = jobsFile s"
    by (simp add: ensureDataDirectory_def)
  show "armed (snd (initializeJobs P s)) i
           = (case obj_get (takeWhile (entry_parses P) (loadJobs s)) i of
                None \<Rightarrow> None
              | Some j \<Rightarrow> entry_of j)"
    using forEach_startJob_replay [OF c distinct_loadJobs, where P = P and i = i] e
    by (simp add: initializeJobs_def Let_def l split: option.splits)
  show "loadJobs (snd (initializeJobs P s)) = loadJobs s"
    using forEach_startJob_frame [of P "loadJobs ?s1" ?s1] j
    by (simp add: initializeJobs_def Let_def loadJobs_def)
qed

lemma obj_get_takeWhile:
  assumes "distinct (obj_keys js)" and "obj_get (takeWhile Q js) i = Some j"
  shows "obj_get js i = Some j"
proof -
  have "(i, j) \<in> set (takeWhile Q js)"
    using assms(2) by (rule obj_get_Some_mem)
  then have "(i, j) \<in> set js"
    by (rule set_takeWhileD [THEN conjunct1])
  with assms(1) show ?thesis by (rule obj_get_distinct)
qed

lemma first_failure:
  assumes "distinct (obj_keys js)" and "\<not> list_all Q js"
  shows "\<exists>k j. obj_get js k = Some j \<and> obj_get (takeWhile Q js) k = None"
proof -
  from assms(2) have ne: "dropWhile Q js \<noteq> []"
    by (simp add: list_all_iff)
  then obtain p ps where dw: "dropWhile Q js = p # ps"
    by (cases "dropWhile Q js") simp_all
  have js: "js = takeWhile Q js @ p # ps"
    using takeWhile_dropWhile_id [of Q js] dw by simp
  have "distinct (map fst (takeWhile Q js @ p # ps))"
    using assms(1) js by (simp add: obj_keys_def)
  then have "fst p \<notin> set (obj_keys (takeWhile Q js))"
    by (auto simp: obj_keys_def)
  then have 1: "obj_get (takeWhile Q js) (fst p) = None"
    by (simp add: obj_get_None_iff)
  have "(fst p, snd p) \<in> set js"
    using js by (metis in_set_conv_decomp prod.collapse)
  with assms(1) have "obj_get js (fst p) = Some (snd p)"
    by (rule obj_get_distinct)
  with 1 show ?thesis by blast
qed

lemma takeWhile_all: "list_all Q xs \<Longrightarrow> takeWhile Q xs = xs"
  by (induction xs) simp_all

text \<open>
  C8, as amended. The record that POST /jobs stores under the id of the request (an id
  other than \<open>__proto__\<close>, the file being writable) has the fields url, schedule,
  cronSecret (when the request has one), createdAt and createdBy, and every record of a
  store that the routes have written since a start without a file has this shape; the
  store is an object keyed by job id. The text that \<open>saveJobs\<close> writes for a job map
  parses back to the same map, so saving a map and loading it back gives the same map
  when the write succeeds. At startup, when no task exists yet, \<open>initializeJobs\<close>
  leaves the store as it is and calls \<open>startJob\<close> with the url, schedule and cronSecret
  of the persisted entries, in turn: whatever it arms is a persisted id, armed with the
  data of its record. When every persisted schedule parses it returns normally and every
  persisted job is re-armed; this is so for every store the routes have written, so
  after a restart on whatever a run of requests has left. When a persisted record has
  no schedule or one that does not parse, \<open>initializeJobs\<close> throws and some persisted
  job is not re-armed.
\<close>

theorem persisted_jobs_round_trip:
  "obj_keys (job_record u e c now)
     = [''url'', ''schedule''] @ (case c of None \<Rightarrow> [] | Some x \<Rightarrow> [''cronSecret''])
       @ [''createdAt'', ''createdBy'']
   \<and> entry_of (job_record u e c now) = Some (Some u, e, c)
   \<and> (post_checks P req = Inr (i, u, e, c) \<and> i \<noteq> ''__proto__'' \<and> dataDir s \<longrightarrow>
        obj_get (loadJobs (snd (post_jobs_handler P now req s))) i
          = Some (job_record u e c now))
   \<and> shaped (loadJobs (serve_all P cs (startup P)))
   \<and> wf_jobs (loadJobs s)
   \<and> (wf_jobs js \<longrightarrow> JSON_parse (JSON_stringify js) = Some js)
   \<and> (wf_jobs js \<and> dataDir s \<longrightarrow>
        fst (saveJobs js s) = None \<and> loadJobs (snd (saveJobs js s)) = js)
   \<and> (store_ok P s \<longrightarrow> store_ok P (snd (serve P r now req s)))
   \<and> (tasks s = [] \<and> activeJobs s = Map.empty \<longrightarrow>
        fst (initializeJobs P s)
          = (if replayable P (loadJobs s) then None else Some InvalidPattern)
        \<and> loadJobs (snd (initializeJobs P s)) = loadJobs s
        \<and> (replayable P (loadJobs s) \<longrightarrow>
             armed (snd (initializeJobs P s)) i
               = (case obj_get (loadJobs s) i of None \<Rightarrow> None | Some j \<Rightarrow> entry_of j))
        \<and> (\<forall>x. armed (snd (initializeJobs P s)) i = Some x \<longrightarrow>
             (\<exists>j. obj_get (loadJobs s) i = Some j \<and> entry_of j = Some x))
        \<and> (\<not> replayable P (loadJobs s) \<longrightarrow>
             (\<exists>k j. obj_get (loadJobs s) k = Some j
                    \<and> armed (snd (initializeJobs P s)) k = None)))
   \<and> store_ok P (serve_all P cs (startup P))
   \<and> fst (initializeJobs P (restart (serve_all P cs (startup P)))) = None
   \<and> armed (snd (initializeJobs P (restart (serve_all P cs (startup P))))) i
       = (case obj_get (loadJobs (serve_all P cs (startup P))) i of
            None \<Rightarrow> None
          | Some j \<Rightarrow> entry_of j)"
proof (intro conjI impI allI)
  show "obj_keys (job_record u e c now)
     = [''url'', ''schedule''] @ (case c of None \<Rightarrow> [] | Some x \<Rightarrow> [''cronSecret''])
       @ [''createdAt'', ''createdBy'']"
    by (rule obj_keys_job_record)
  show "entry_of (job_record u e c now) = Some (Some u, e, c)"
    by (rule entry_of_job_record)
  show "obj_get (loadJobs (snd (post_jobs_handler P now req s))) i = Some (job_record u e c now)"
    if "post_checks P req = Inr (i, u, e, c) \<and> i \<noteq> ''__proto__'' \<and> dataDir s"
    using that loadJobs_post_accepts [of P req i u e c s now]
    by (simp add: js_assign_other obj_get_obj_set)
  show "shaped (loadJobs (serve_all P cs (startup P)))"
    by (rule shaped_serve_all) (simp add: loadJobs_startup shaped_def)
  show "wf_jobs (loadJobs s)"
    by (rule wf_jobs_loadJobs)
  show "JSON_parse (JSON_stringify js) = Some js" if "wf_jobs js"
    using that by (rule JSON_round_trip)
  show "fst (saveJobs js s) = None" if "wf_jobs js \<and> dataDir s"
    using that by (simp add: saveJobs_dataDir)
  show "loadJobs (snd (saveJobs js s)) = js" if "wf_jobs js \<and> dataDir s"
    using that by (simp add: loadJobs_saveJobs)
  show "store_ok P (snd (serve P r now req s))" if "store_ok P s"
    using that by (rule store_ok_serve)
  show "store_ok P (serve_all P cs (startup P))"
    using store_ok_startup by (rule store_ok_serve_all)
next
  assume a: "tasks s = [] \<and> activeJobs s = Map.empty"
  then have f: "tasks s = []" "activeJobs s = Map.empty"
    by simp_all
  note r = initializeJobs_replay [OF f]
  show "fst (initializeJobs P s)
          = (if replayable P (loadJobs s) then None else Some InvalidPattern)"
    by (rule fst_initializeJobs)
  show "loadJobs (snd (initializeJobs P s)) = loadJobs s"
    by (rule r(2))
  show "armed (snd (initializeJobs P s)) i
               = (case obj_get (loadJobs s) i of None \<Rightarrow> None | Some j \<Rightarrow> entry_of j)"
    if "replayable P (loadJobs s)"
    using that unfolding r(1) by (simp add: replayable_entry_parses takeWhile_all)
  show "\<exists>j. obj_get (loadJobs s) i = Some j \<and> entry_of j = Some x"
    if "armed (snd (initializeJobs P s)) i = Some x" for x
  proof -
    from that obtain j where j: "obj_get (takeWhile (entry_parses P) (loadJobs s)) i = Some j"
      and x: "entry_of j = Some x"
      unfolding r(1) by (auto split: option.splits)
    from distinct_loadJobs j have "obj_get (loadJobs s) i = Some j"
      by (rule obj_get_takeWhile)
    with x show ?thesis by blast
  qed
  show "\<exists>k j. obj_get (loadJobs s) k = Some j \<and> armed (snd (initializeJobs P s)) k = None"
    if "\<not> replayable P (loadJobs s)"
  proof -
    from that have "\<not> list_all (entry_parses P) (loadJobs s)"
      by (simp add: replayable_entry_parses)
    with distinct_loadJobs obtain k j where "obj_get (loadJobs s) k = Some j"
      and "obj_get (takeWhile (entry_parses P) (loadJobs s)) k = None"
      using first_failure by blast
    then show ?thesis
      using initializeJobs_replay(1) [OF f, of P k] by auto
  qed
next
  let ?s = "restart (serve_all P cs (startup P))"
  have l: "loadJobs ?s = loadJobs (serve_all P cs (startup P))"
    by (simp add: restart_def loadJobs_def)
  have ok: "replayable P (loadJobs ?s)"
    using store_ok_serve_all [OF store_ok_startup, of P cs]
    by (simp add: store_ok_def l)
  have fresh: "tasks ?s = []" "activeJobs ?s = Map.empty"
    by (simp_all add: restart_def)
  show "fst (initializeJobs P ?s) = None"
    using ok by (simp add: fst_initializeJobs)
  show "armed (snd (initializeJobs P ?s)) i
       = (case obj_get (loadJobs (serve_all P cs (startup P))) i of
            None \<Rightarrow> None
          | Some j \<Rightarrow> entry_of j)"
    using ok unfolding initializeJobs_replay(1) [OF fresh] l
    by (simp add: replayable_entry_parses takeWhile_all)
qed

theorem persisted_jobs_round_trip_witness:
  "loadJobs (snd (saveJobs
       [(''a'', [(''url'', ''https://example.com/a''), (''schedule'', ''*/5 * * * *''),
                (''cronSecret'', ''s3cret''), (''createdAt'', ''2024-01-01T00:00:00.000Z''),
                (''createdBy'', ''JIMEX-X'')]),
        (''b'', [(''url'', ''https://example.com/b''), (''schedule'', ''0 * * * *''),
                (''createdAt'', ''2024-01-02T00:00:00.000Z''), (''createdBy'', ''JIMEX-X'')])]
       (initial\<lparr>dataDir := True\<rparr>)))
     = [(''a'', [(''url'', ''https://example.com/a''), (''schedule'', ''*/5 * * * *''),
                (''cronSecret'', ''s3cret''), (''createdAt'', ''2024-01-01T00:00:00.000Z''),
                (''createdBy'', ''JIMEX-X'')]),
        (''b'', [(''url'', ''https://example.com/b''), (''schedule'', ''0 * * * *''),
                (''createdAt'', ''2024-01-02T00:00:00.000Z''), (''createdBy'', ''JIMEX-X'')])]
   \<and> fst (initializeJobs (sample_platform None)
        (snd (saveJobs
           [(''a'', [(''url'', ''https://example.com/a''), (''schedule'', ''*/5 * * * *''),
                    (''cronSecret'', ''s3cret''), (''createdAt'', ''2024-01-01T00:00:00.000Z''),
                    (''createdBy'', ''JIMEX-X'')]),
            (''b'', [(''url'', ''https://example.com/b''), (''schedule'', ''0 * * * *''),
                    (''createdAt'', ''2024-01-02T00:00:00.000Z''), (''createdBy'', ''JIMEX-X'')])]
           (initial\<lparr>dataDir := True\<rparr>)))) = None
   \<and> armed (snd (initializeJobs (sample_platform None)
        (snd (saveJobs
           [(''a'', [(''url'', ''https://example.com/a''), (''schedule'', ''*/5 * * * *''),
                    (''cronSecret'', ''s3cret''), (''createdAt'', ''2024-01-01T00:00:00.000Z''),
                    (''createdBy'', ''JIMEX-X'')]),
            (''b'', [(''url'', ''https://example.com/b''), (''schedule'', ''0 * * * *''),
                    (''createdAt'', ''2024-01-02T00:00:00.000Z''), (''createdBy'', ''JIMEX-X'')])]
           (initial\<lparr>dataDir := True\<rparr>))))) ''b''
       = Some (Some ''https://example.com/b'', ''0 * * * *'', None)
   \<and> loadJobs (serve_all (sample_platform (Some ''k1''))
        [(POST_jobs, ''2024-01-01T00:00:00.000Z'',
          sample_request [(''x-api-key'', ''k1'')]
            [(''id'', ''a''), (''url'', ''https://example.com/a''), (''schedule'', ''*/5 * * * *''),
             (''cronSecret'', ''s3cret'')] [])]
        (startup (sample_platform (Some ''k1''))))
       = [(''a'', [(''url'', ''https://example.com/a''), (''schedule'', ''*/5 * * * *''),
                  (''cronSecret'', ''s3cret''), (''createdAt'', ''2024-01-01T00:00:00.000Z''),
                  (''createdBy'', ''JIMEX-X'')])]
   \<and> armed (snd (initializeJobs (sample_platform (Some ''k1''))
        (restart (serve_all (sample_platform (Some ''k1''))
           [(POST_jobs, ''2024-01-01T00:00:00.000Z'',
             sample_request [(''x-api-key'', ''k1'')]
               [(''id'', ''a''), (''url'', ''https://example.com/a''),
                (''schedule'', ''*/5 * * * *''), (''cronSecret'', ''s3cret'')] [])]
           (startup (sample_platform (Some ''k1''))))))) ''a''
       = Some (Some ''https://example.com/a'', ''*/5 * * * *'', Some ''s3cret'')"
proof -
  let ?js = "[(''a'', [(''url'', ''https://example.com/a''), (''schedule'', ''*/5 * * * *''),
                (''cronSecret'', ''s3cret''), (''createdAt'', ''2024-01-01T00:00:00.000Z''),
                (''createdBy'', ''JIMEX-X'')]),
        (''b'', [(''url'', ''https://example.com/b''), (''schedule'', ''0 * * * *''),
                (''createdAt'', ''2024-01-02T00:00:00.000Z''), (''createdBy'', ''JIMEX-X'')])]"
  let ?base = "initial\<lparr>dataDir := True\<rparr>"
  let ?s = "snd (saveJobs ?js ?base)"
  let ?P = "sample_platform None"
  let ?K = "sample_platform (Some ''k1'')"
  let ?now = "''2024-01-01T00:00:00.000Z''"
  let ?req = "sample_request [(''x-api-key'', ''k1'')]
            [(''id'', ''a''), (''url'', ''https://example.com/a''), (''schedule'', ''*/5 * * * *''),
             (''cronSecret'', ''s3cret'')] []"
  let ?run = "serve_all ?K [(POST_jobs, ?now, ?req)] (startup ?K)"
  have d: "wf_jobs ?js \<and> dataDir ?base"
    by (simp add: wf_jobs_def obj_keys_def)
  from persisted_jobs_round_trip [where s = ?base and js = ?js] d
  have l: "loadJobs ?s = ?js" by blast
  have ok: "tasks ?s = [] \<and> activeJobs ?s = Map.empty"
    by (simp add: saveJobs_def initial_def)
  have rp: "replayable ?P (loadJobs ?s)"
    unfolding l by (simp add: replayable_def sample_platform_def sample_validate_def)
  from persisted_jobs_round_trip [where s = ?s and P = ?P and i = "''b''"] ok rp
  have 1: "fst (initializeJobs ?P ?s) = None"
    and 2: "armed (snd (initializeJobs ?P ?s)) ''b''
         = (case obj_get (loadJobs ?s) ''b'' of None \<Rightarrow> None | Some j \<Rightarrow> entry_of j)"
    by simp_all
  have k: "serve ?K POST_jobs ?now ?req (startup ?K) = post_jobs_handler ?K ?now ?req (startup ?K)"
    by (simp add: serve_def handler_def apiKeyMiddleware_def sample_request_def
        sample_platform_def)
  have c: "post_checks ?K ?req
      = Inr (''a'', ''https://example.com/a'', ''*/5 * * * *'', Some ''s3cret'')
    \<and> ''a'' \<noteq> ''__proto__'' \<and> dataDir (startup ?K)"
    by (simp add: post_checks_def sample_request_def sample_platform_def sample_validate_def
        sample_url_parses_def startup_eq)
  have 3: "loadJobs ?run
      = [(''a'', job_record ''https://example.com/a'' ''*/5 * * * *'' (Some ''s3cret'') ?now)]"
    using c loadJobs_post_accepts [of ?K ?req "''a''" "''https://example.com/a''"
        "''*/5 * * * *''" "Some ''s3cret''" "startup ?K" ?now]
    by (simp add: k js_assign_other loadJobs_startup)
  from persisted_jobs_round_trip [where P = ?K and cs = "[(POST_jobs, ?now, ?req)]"
      and i = "''a''"]
  have 4: "armed (snd (initializeJobs ?K (restart ?run))) ''a''
       = (case obj_get (loadJobs ?run) ''a'' of None \<Rightarrow> None | Some j \<Rightarrow> entry_of j)"
    by blast
  show ?thesis
    using 1 2 3 4 unfolding l by (simp add: entry_of_def job_record_def)
qed

text \<open>
  The claim as stated fails at startup for a file with a record whose schedule does not
  parse: \<open>initializeJobs\<close> throws at the record of \<open>a\<close>, and the job \<open>b\<close>, persisted
  with a schedule that parses, is not re-armed.
\<close>

theorem persisted_jobs_counterexample:
  "loadJobs (initial\<lparr>dataDir := True, jobsFile := Some (JSON_stringify
       [(''a'', [(''url'', ''https://example.com/a''), (''schedule'', ''* * *''),
                (''createdAt'', ''2024-01-01T00:00:00.000Z''), (''createdBy'', ''JIMEX-X'')]),
        (''b'', [(''url'', ''https://example.com/b''), (''schedule'', ''0 * * * *''),
                (''createdAt'', ''2024-01-02T00:00:00.000Z''),
                (''createdBy'', ''JIMEX-X'')])])\<rparr>)
     = [(''a'', [(''url'', ''https://example.com/a''), (''schedule'', ''* * *''),
                (''createdAt'', ''2024-01-01T00:00:00.000Z''), (''createdBy'', ''JIMEX-X'')]),
        (''b'', [(''url'', ''https://example.com/b''), (''schedule'', ''0 * * * *''),
                (''createdAt'', ''2024-01-02T00:00:00.000Z''), (''createdBy'', ''JIMEX-X'')])]
   \<and> cron_validate (sample_platform None) ''0 * * * *''
   \<and> fst (initializeJobs (sample_platform None)
        (initial\<lparr>dataDir := True, jobsFile := Some (JSON_stringify
           [(''a'', [(''url'', ''https://example.com/a''), (''schedule'', ''* * *''),
                    (''createdAt'', ''2024-01-01T00:00:00.000Z''), (''createdBy'', ''JIMEX-X'')]),
            (''b'', [(''url'', ''https://example.com/b''), (''schedule'', ''0 * * * *''),
                    (''createdAt'', ''2024-01-02T00:00:00.000Z''),
                    (''createdBy'', ''JIMEX-X'')])])\<rparr>)) = Some InvalidPattern
   \<and> armed (snd (initializeJobs (sample_platform None)
        (initial\<lparr>dataDir := True, jobsFile := Some (JSON_stringify
           [(''a'', [(''url'', ''https://example.com/a''), (''schedule'', ''* * *''),
                    (''createdAt'', ''2024-01-01T00:00:00.000Z''), (''createdBy'', ''JIMEX-X'')]),
            (''b'', [(''url'', ''https://example.com/b''), (''schedule'', ''0 * * * *''),
                    (''createdAt'', ''2024-01-02T00:00:00.000Z''),
                    (''createdBy'', ''JIMEX-X'')])])\<rparr>))) ''b'' = None"
proof -
  let ?js = "[(''a'', [(''url'', ''https://example.com/a''), (''schedule'', ''* * *''),
                (''createdAt'', ''2024-01-01T00:00:00.000Z''), (''createdBy'', ''JIMEX-X'')]),
        (''b'', [(''url'', ''https://example.com/b''), (''schedule'', ''0 * * * *''),
                (''createdAt'', ''2024-01-02T00:00:00.000Z''), (''createdBy'', ''JIMEX-X'')])]"
  let ?s = "initial\<lparr>dataDir := True, jobsFile := Some (JSON_stringify ?js)\<rparr>"
  let ?P = "sample_platform None"
  have w: "wf_jobs ?js"
    by (simp add: wf_jobs_def obj_keys_def)
  have l: "loadJobs ?s = ?js"
    using loadJobs_written [OF w, of "initial\<lparr>dataDir := True\<rparr>"] by simp
  have v: "cron_validate ?P ''0 * * * *''" "\<not> cron_validate ?P ''* * *''"
    by (simp_all add: sample_platform_def sample_validate_def)
  have e: "ensureDataDirectory ?s = ?s"
    by (simp add: ensureDataDirectory_def)
  have 1: "initializeJobs ?P ?s = (Some InvalidPattern, ?s)"
    unfolding initializeJobs_def Let_def e l
    using v by (simp add: startJob_def initial_def)
  have 2: "armed ?s ''b'' = None"
    by (simp add: armed_def initial_def)
  show ?thesis
    unfolding 1 using l v(1) 2 by simp
qed

end
